theory Spec2Isabelle
  imports Main "HOL-Library.List_Lexorder" "HOL-Library.Sublist"
begin

section \<open>Python values\<close>

text \<open>
  A Python \<open>str\<close> is a sequence of Unicode code points; it is modelled as a list of
  natural numbers, one per code point. Comparison of two strings (\<open><=\<close>) is the
  lexicographic order on code points, which is the order of \<open>List_Lexorder\<close>.
  \<open>str\<close> turns a literal of the theory into such a list.
\<close>

type_synonym pystr = "nat list"

definition str :: "string \<Rightarrow> pystr" where
  "str s = map of_char s"

text \<open>The exceptions the module can raise.\<close>

datatype py_error =
    KeyError | IndexError | ValueError | AssertionError | AttributeError
  | NameError | TypeError | FileNotFoundError

text \<open>
  A JSON scalar as \<open>json.load\<close> returns it, for the fields that the module only
  formats or converts (\<open>id\<close>, \<open>itemno\<close>, \<open>year\<close>, \<open>day\<close>): a string or an integer.
\<close>

datatype jval = JStr pystr | JInt int

text \<open>
  Decimal digits of a natural number, and \<open>str(n)\<close> of an integer.
\<close>

function nat_digits :: "nat \<Rightarrow> pystr" where
  "nat_digits n = (if n < 10 then [48 + n] else nat_digits (n div 10) @ [48 + n mod 10])"
  by pat_completeness auto
termination
  by (relation "measure (\<lambda>n. n)") auto

declare nat_digits.simps [simp del]

definition int_str :: "int \<Rightarrow> pystr" where
  "int_str i = (if i < 0 then 45 # nat_digits (nat (- i)) else nat_digits (nat i))"

text \<open>\<open>str(v)\<close>, which is what \<open>str.format\<close> and an f-string without a format
  specification insert for a value.\<close>

fun py_str :: "jval \<Rightarrow> pystr" where
  "py_str (JStr s) = s"
| "py_str (JInt i) = int_str i"

text \<open>
  The format specification \<open>02\<close> of \<open>f"{n:02}"\<close>: sign-aware zero padding to width 2.
  A negative number already has two characters.
\<close>

definition fmt02 :: "int \<Rightarrow> pystr" where
  "fmt02 n =
     (if n < 0 then 45 # nat_digits (nat (- n))
      else (let d = nat_digits (nat n) in if length d < 2 then 48 # d else d))"

text \<open>
  Whitespace as Python defines it for \<open>str\<close>: the code points for which
  \<open>str.isspace\<close> holds. The class \<open>\s\<close> of a \<open>str\<close> pattern and the stripping done by
  \<open>int(...)\<close> both use it.
\<close>

definition is_space :: "nat \<Rightarrow> bool" where
  "is_space c \<longleftrightarrow>
     (9 \<le> c \<and> c \<le> 13) \<or> (28 \<le> c \<and> c \<le> 32) \<or> c = 133 \<or> c = 160 \<or> c = 5760 \<or>
     (8192 \<le> c \<and> c \<le> 8202) \<or> c = 8232 \<or> c = 8233 \<or> c = 8239 \<or> c = 8287 \<or>
     c = 12288"

text \<open>
  \<open>int(s)\<close> for a string: surrounding whitespace is stripped, one sign is allowed, then
  decimal digits follow, with single underscores allowed between digits. \<open>None\<close> stands
  for \<open>ValueError\<close>. Only the ASCII digits are modelled (Python also reads the other
  Unicode decimal digits, and newer versions refuse strings of more than 4300 digits).
\<close>

definition is_digit :: "nat \<Rightarrow> bool" where
  "is_digit c \<longleftrightarrow> 48 \<le> c \<and> c \<le> 57"

fun digits_value :: "int \<Rightarrow> pystr \<Rightarrow> int option" where
  "digits_value acc [] = Some acc"
| "digits_value acc [c] = (if is_digit c then Some (acc * 10 + int (c - 48)) else None)"
| "digits_value acc (c # d # ds) =
     (if is_digit c then digits_value (acc * 10 + int (c - 48)) (d # ds)
      else if c = 95 \<and> is_digit d then digits_value (acc * 10 + int (d - 48)) ds
      else None)"

definition unsigned_value :: "pystr \<Rightarrow> int option" where
  "unsigned_value s =
     (case s of
        [] \<Rightarrow> None
      | c # cs \<Rightarrow> if is_digit c then digits_value (int (c - 48)) cs else None)"

definition int_of_str :: "pystr \<Rightarrow> int option" where
  "int_of_str s =
     (let t = rev (dropWhile is_space (rev (dropWhile is_space s)))
      in case t of
           [] \<Rightarrow> None
         | c # cs \<Rightarrow>
             if c = 45 then map_option uminus (unsigned_value cs)
             else if c = 43 then unsigned_value cs
             else unsigned_value t)"

fun py_int :: "jval \<Rightarrow> int option" where
  "py_int (JInt i) = Some i"
| "py_int (JStr s) = int_of_str s"

section \<open>String operations used on the speech text\<close>

text \<open>
  \<open>text.replace(old, new)\<close>: scanning from the left, every occurrence of \<open>old\<close> that
  does not overlap an earlier one is replaced by \<open>new\<close>. With an empty \<open>old\<close>, \<open>new\<close>
  is inserted before every character and at the end.
\<close>

function replace_scan :: "pystr \<Rightarrow> pystr \<Rightarrow> pystr \<Rightarrow> pystr" where
  "replace_scan old new [] = []"
| "replace_scan old new (c # cs) =
     (if old \<noteq> [] \<and> prefix old (c # cs)
      then new @ replace_scan old new (drop (length old) (c # cs))
      else c # replace_scan old new cs)"
  by pat_completeness auto
termination
  by (relation "measure (\<lambda>(old, new, txt). length txt)") auto

definition py_replace :: "pystr \<Rightarrow> pystr \<Rightarrow> pystr \<Rightarrow> pystr" where
  "py_replace txt old new =
     (if old = [] then new @ concat (map (\<lambda>c. c # new) txt) else replace_scan old new txt)"

text \<open>\<open>text.lstrip(chars)\<close>: the leading characters that belong to \<open>chars\<close> are removed.\<close>

definition py_lstrip :: "pystr \<Rightarrow> pystr \<Rightarrow> pystr" where
  "py_lstrip chars txt = dropWhile (\<lambda>c. c \<in> set chars) txt"

text \<open>
  \<open>re.sub("\s+", " ", text)\<close>: every maximal run of whitespace is replaced by one space
  (code point 32).
\<close>

function re_sub_ws :: "pystr \<Rightarrow> pystr" where
  "re_sub_ws [] = []"
| "re_sub_ws (c # cs) =
     (if is_space c then 32 # re_sub_ws (dropWhile is_space cs) else c # re_sub_ws cs)"
  by pat_completeness auto
termination
  by (relation "measure length") (auto simp: less_Suc_eq_le length_dropWhile_le)

text \<open>
  The two steps that \<open>process_and_speech_data\<close> applies to a speech's text, composed:
  \<open>re.sub("\s+", " ", text.replace(speaker, "").lstrip(". "))\<close>.
\<close>

definition normalize_text :: "pystr \<Rightarrow> pystr \<Rightarrow> pystr" where
  "normalize_text txt speaker = re_sub_ws (py_lstrip (str ''. '') (py_replace txt speaker []))"

section \<open>Legislators and \<open>filter_terms\<close>\<close>

text \<open>
  One entry of a legislator's \<open>"terms"\<close> list. \<open>t_start\<close>, \<open>t_end\<close> and \<open>t_state\<close> are
  the keys \<open>"start"\<close>, \<open>"end"\<close> and \<open>"state"\<close>, read with \<open>term[...]\<close>; \<open>t_party\<close> and
  \<open>t_caucus\<close> are the keys \<open>"party"\<close> and \<open>"caucus"\<close>, read with \<open>term.get(..., None)\<close>,
  so \<open>None\<close> stands for an absent key.
\<close>

record leg_term =
  t_start :: pystr
  t_end :: pystr
  t_state :: pystr
  t_party :: "pystr option"
  t_caucus :: "pystr option"

text \<open>The loop condition \<open>term["start"] <= date <= term["end"]\<close>.\<close>

definition in_term :: "pystr \<Rightarrow> leg_term \<Rightarrow> bool" where
  "in_term date trm \<longleftrightarrow> t_start trm \<le> date \<and> date \<le> t_end trm"

text \<open>
  The \<open>for\<close> loop of \<open>filter_terms\<close>, over the sequence it is given (the caller passes
  \<open>reversed(terms)\<close>): the first element that contains the date is returned, \<open>None\<close>
  stands for the loop running to its end.
\<close>

fun scan_terms :: "pystr \<Rightarrow> leg_term list \<Rightarrow> leg_term option" where
  "scan_terms date [] = None"
| "scan_terms date (trm # rest) =
     (if in_term date trm then Some trm else scan_terms date rest)"

text \<open>The message of \<open>logging.warning\<close> in \<open>filter_terms\<close>.\<close>

definition warning_msg :: "pystr \<Rightarrow> leg_term \<Rightarrow> pystr" where
  "warning_msg date last_term =
     str ''Legislator's terms do not overlap with '' @ date @
     str ''  using most recent term, ending '' @ t_end last_term"

text \<open>
  \<open>filter_terms(date, terms)\<close>. The result is the exception raised, or the term returned
  together with the warnings logged by the call. \<open>terms[-1]\<close> raises \<open>IndexError\<close> on an
  empty list.
\<close>

definition filter_terms :: "pystr \<Rightarrow> leg_term list \<Rightarrow> py_error + (leg_term \<times> pystr list)" where
  "filter_terms date terms =
     (case scan_terms date (rev terms) of
        Some trm \<Rightarrow> Inr (trm, [])
      | None \<Rightarrow>
          (case terms of
             [] \<Rightarrow> Inl IndexError
           | _ # _ \<Rightarrow>
               (let last_term = last terms
                in Inr (last_term, [warning_msg date last_term]))))"

section \<open>Speech documents and output records\<close>

text \<open>
  The objects that \<open>load_json\<close> returns for a speech file, with the keys the module
  reads: \<open>data["header"]\<close> (\<open>"year"\<close>, \<open>"month"\<close>, \<open>"day"\<close>, \<open>"chamber"\<close>), the items of
  \<open>data["content"]\<close> (\<open>"kind"\<close>, \<open>"speaker_bioguide"\<close>, \<open>"speaker"\<close>, \<open>"itemno"\<close>,
  \<open>"text"\<close>) and the document (\<open>"id"\<close>, \<open>"title"\<close>, \<open>"header"\<close>, \<open>"content"\<close>).
  \<open>s_speaker_bioguide\<close> is \<open>None\<close> for a JSON \<open>null\<close>.
\<close>

record header =
  h_year :: jval
  h_month :: pystr
  h_day :: jval
  h_chamber :: pystr

record speech =
  s_kind :: pystr
  s_speaker_bioguide :: "pystr option"
  s_speaker :: pystr
  s_itemno :: jval
  s_text :: pystr

record document =
  d_id :: jval
  d_title :: pystr
  d_header :: header
  d_content :: "speech list"

text \<open>A value of the dictionary built by \<open>process_legislator_data\<close>.\<close>

record legislator =
  l_first_name :: pystr
  l_last_name :: pystr
  l_gender :: pystr
  l_terms :: "leg_term list"

text \<open>The dictionary \<open>clean_data\<close>, one per emitted speech; \<open>o_party\<close> may be \<open>None\<close>.\<close>

record clean_data =
  o_id :: pystr
  o_source_file :: pystr
  o_title :: pystr
  o_date :: pystr
  o_text :: pystr
  o_chamber :: pystr
  o_speaker_id :: pystr
  o_party :: "pystr option"
  o_first_name :: pystr
  o_last_name :: pystr
  o_gender :: pystr
  o_state :: pystr

section \<open>Module constants\<close>

definition PROCEDURAL_TITLES :: "pystr list" where
  "PROCEDURAL_TITLES = map str
     [''APPOINTMENT OF ACTING PRESIDENT PRO TEMPORE'',
      ''HOUR OF MEETING ON TOMORROW'',
      ''ADJOURNMENT'',
      ''PLEDGE OF ALLEGIANCE'',
      ''THE JOURNAL'',
      ''EXECUTIVE REPORTS OF COMMITTEES'',
      ''UNANIMOUS CONSENT AGREEMENT--EXECUTIVE CALENDAR'',
      ''ADJOURNMENT UNTIL 9:30 A.M. TOMORROW'',
      ''APPOINTMENT'',
      ''AUTHORITY FOR COMMITTEES TO MEET'',
      ''PROGRAM'',
      ''EXECUTIVE REPORTS OF COMMITTEE'',
      ''PRIVILEGES OF THE FLOOR'',
      ''APPOINTMENTS'',
      ''GENERAL LEAVE'',
      ''ADJOURNMENT UNTIL 10 A.M. TOMORROW'']"

text \<open>
  \<open>MONTH_MAP\<close>: the full month name of month \<open>i\<close> (as \<open>strftime('%B')\<close> gives it in the
  default locale) mapped to \<open>f"{i:02}"\<close>, for \<open>i\<close> from 1 to 12.
\<close>

definition month_names :: "pystr list" where
  "month_names = map str
     [''January'', ''February'', ''March'', ''April'', ''May'', ''June'', ''July'',
      ''August'', ''September'', ''October'', ''November'', ''December'']"

definition MONTH_MAP :: "pystr \<rightharpoonup> pystr" where
  "MONTH_MAP = map_of (map (\<lambda>i. (month_names ! (i - 1), fmt02 (int i))) [1..<13])"

section \<open>\<open>process_and_speech_data\<close>\<close>

text \<open>
  The arguments of \<open>process_and_speech_data\<close>. \<open>legislator_data\<close> and \<open>output_fpath\<close>
  default to \<open>None\<close>.
\<close>

record args =
  input_paths :: "pystr list"
  legislator_data :: "(pystr \<rightharpoonup> legislator) option"
  output_fpath :: "pystr option"
  remove_procedural :: bool
  restrict_to_gop_dem :: bool

text \<open>
  What the function changes while it runs: its local variable \<open>speeches\<close> (\<open>None\<close> or a
  list), the files it writes (\<open>files\<close> maps a path to the lines of the file, each line
  the \<open>json.dumps\<close> of one record; a path that is not mapped has no file) and the
  warnings logged so far.
\<close>

record run_state =
  speeches :: "clean_data list option"
  files :: "pystr \<rightharpoonup> clean_data list"
  warnings :: "pystr list"

text \<open>
  \<open>load_json(path)\<close>: \<open>inputs\<close> maps the path of every readable speech file to the
  document parsed from it. The input files are kept apart from the files written, and a
  write never fails: a destination that is also an input path, and errors of the
  operating system on writing, are outside this model.
\<close>

definition load_json :: "(pystr \<rightharpoonup> document) \<Rightarrow> pystr \<Rightarrow> py_error + document" where
  "load_json inputs fpath =
     (case inputs fpath of None \<Rightarrow> Inl FileNotFoundError | Some data \<Rightarrow> Inr data)"

text \<open>
  The date string of lines 132 to 136. The keyword arguments of \<open>format\<close> are evaluated
  in order: \<open>MONTH_MAP[...]\<close> raises \<open>KeyError\<close> before \<open>int(...)\<close> can raise
  \<open>ValueError\<close>.
\<close>

definition session_date :: "header \<Rightarrow> py_error + pystr" where
  "session_date h =
     (case MONTH_MAP (h_month h) of
        None \<Rightarrow> Inl KeyError
      | Some month \<Rightarrow>
          (case py_int (h_day h) of
             None \<Rightarrow> Inl ValueError
           | Some day \<Rightarrow> Inr (py_str (h_year h) @ str ''-'' @ month @ str ''-'' @ fmt02 day)))"

text \<open>The dictionary literal of lines 159 to 176.\<close>

definition make_clean_data ::
  "pystr \<Rightarrow> document \<Rightarrow> pystr \<Rightarrow> speech \<Rightarrow> pystr \<Rightarrow> pystr \<Rightarrow> pystr option \<Rightarrow> legislator \<Rightarrow>
   leg_term \<Rightarrow> clean_data" where
  "make_clean_data path data date speech txt speaker_id party leg trm =
     \<lparr> o_id = py_str (d_id data) @ str ''_'' @ py_str (s_itemno speech),
       o_source_file = path,
       o_title = d_title data,
       o_date = date,
       o_text = re_sub_ws txt,
       o_chamber = h_chamber (d_header data),
       o_speaker_id = speaker_id,
       o_party = party,
       o_first_name = l_first_name leg,
       o_last_name = l_last_name leg,
       o_gender = l_gender leg,
       o_state = t_state trm \<rparr>"

text \<open>The list \<open>["Republican", "Democrat"]\<close> of lines 154 and 156.\<close>

definition gop_dem :: "pystr option list" where
  "gop_dem = [Some (str ''Republican''), Some (str ''Democrat'')]"

text \<open>
  Lines 141 to 176, the body of the loop over \<open>data["content"]\<close> up to the record: the
  result is the exception raised, or the record built (\<open>None\<close> when the item fails the
  test of line 141 or meets the \<open>continue\<close> of line 157) with the warnings logged by
  \<open>filter_terms\<close>. Subscripting a \<open>legislator_data\<close> that is \<open>None\<close> raises \<open>TypeError\<close>,
  an unknown speaker \<open>KeyError\<close>.
\<close>

definition clean_speech ::
  "args \<Rightarrow> pystr \<Rightarrow> document \<Rightarrow> pystr \<Rightarrow> speech \<Rightarrow> py_error + (clean_data option \<times> pystr list)" where
  "clean_speech a path data date speech =
     (case s_speaker_bioguide speech of
        None \<Rightarrow> Inr (None, [])
      | Some speaker_id \<Rightarrow>
          if s_kind speech = str ''speech'' \<and> speaker_id \<noteq> str ''None'' \<and> speaker_id \<noteq> []
          then
            (let txt = py_lstrip (str ''. '') (py_replace (s_text speech) (s_speaker speech) [])
             in case legislator_data a of
                  None \<Rightarrow> Inl TypeError
                | Some index \<Rightarrow>
                    (case index speaker_id of
                       None \<Rightarrow> Inl KeyError
                     | Some leg \<Rightarrow>
                         (case filter_terms date (l_terms leg) of
                            Inl e \<Rightarrow> Inl e
                          | Inr (trm, logged) \<Rightarrow>
                              (let party = t_party trm
                               in if restrict_to_gop_dem a \<and> party \<notin> set gop_dem
                                  then
                                    (let party = t_caucus trm
                                     in if party \<notin> set gop_dem then Inr (None, logged)
                                        else Inr (Some (make_clean_data path data date speech txt
                                                    speaker_id party leg trm), logged))
                                  else Inr (Some (make_clean_data path data date speech txt
                                              speaker_id party leg trm), logged)))))
          else Inr (None, []))"

text \<open>
  Lines 178 to 182. The file is opened under the name \<open>out_fpath\<close>, which is not a
  parameter of the function but a name of the module, bound only when the module runs as
  a script (to the path that is also passed as \<open>output_fpath\<close>); \<open>None\<close> stands for the
  name being unbound, which raises \<open>NameError\<close>. \<open>i\<close> is the index of the current input
  path. Mode \<open>"w"\<close> replaces the content of the file, mode \<open>"a"\<close> adds to it, and both
  create a missing file. \<open>speeches.append\<close> raises \<open>AttributeError\<close> when \<open>speeches\<close> is
  \<open>None\<close>.
\<close>

definition emit ::
  "args \<Rightarrow> pystr option \<Rightarrow> nat \<Rightarrow> clean_data \<Rightarrow> run_state \<Rightarrow> py_error + run_state" where
  "emit a out_fpath i rec st =
     (if output_fpath a \<noteq> None
      then
        (case out_fpath of
           None \<Rightarrow> Inl NameError
         | Some out \<Rightarrow>
             Inr (st\<lparr> files := (files st)(out \<mapsto>
                    (if i = 0 then [rec]
                     else (case files st out of None \<Rightarrow> [] | Some lines \<Rightarrow> lines) @ [rec])) \<rparr>))
      else
        (case speeches st of
           None \<Rightarrow> Inl AttributeError
         | Some l \<Rightarrow> Inr (st\<lparr> speeches := Some (l @ [rec]) \<rparr>)))"

text \<open>The loop over \<open>data["content"]\<close> (line 140).\<close>

fun process_content ::
  "args \<Rightarrow> pystr option \<Rightarrow> nat \<Rightarrow> pystr \<Rightarrow> document \<Rightarrow> pystr \<Rightarrow> speech list \<Rightarrow> run_state \<Rightarrow>
   py_error + run_state" where
  "process_content a out_fpath i path data date [] st = Inr st"
| "process_content a out_fpath i path data date (speech # rest) st =
     (case clean_speech a path data date speech of
        Inl e \<Rightarrow> Inl e
      | Inr (None, logged) \<Rightarrow>
          process_content a out_fpath i path data date rest
            (st\<lparr> warnings := warnings st @ logged \<rparr>)
      | Inr (Some rec, logged) \<Rightarrow>
          (case emit a out_fpath i rec (st\<lparr> warnings := warnings st @ logged \<rparr>) of
             Inl e \<Rightarrow> Inl e
           | Inr st' \<Rightarrow> process_content a out_fpath i path data date rest st'))"

text \<open>
  The body of the loop over \<open>input_paths\<close> (lines 126 to 182) for the path of index \<open>i\<close>.
\<close>

definition process_path ::
  "args \<Rightarrow> pystr option \<Rightarrow> (pystr \<rightharpoonup> document) \<Rightarrow> nat \<Rightarrow> pystr \<Rightarrow> run_state \<Rightarrow>
   py_error + run_state" where
  "process_path a out_fpath inputs i path st =
     (case load_json inputs path of
        Inl e \<Rightarrow> Inl e
      | Inr data \<Rightarrow>
          if remove_procedural a \<and> d_title data \<in> set PROCEDURAL_TITLES then Inr st
          else
            (case session_date (d_header data) of
               Inl e \<Rightarrow> Inl e
             | Inr date \<Rightarrow>
                 if length date = length (str ''XXXX-XX-XX'')
                 then process_content a out_fpath i path data date (d_content data) st
                 else Inl AssertionError))"

text \<open>The loop \<open>for i, path in enumerate(input_paths)\<close>, from index \<open>i\<close> on.\<close>

fun process_paths ::
  "args \<Rightarrow> pystr option \<Rightarrow> (pystr \<rightharpoonup> document) \<Rightarrow> nat \<Rightarrow> pystr list \<Rightarrow> run_state \<Rightarrow>
   py_error + run_state" where
  "process_paths a out_fpath inputs i [] st = Inr st"
| "process_paths a out_fpath inputs i (path # rest) st =
     (case process_path a out_fpath inputs i path st of
        Inl e \<Rightarrow> Inl e
      | Inr st' \<Rightarrow> process_paths a out_fpath inputs (Suc i) rest st')"

text \<open>
  \<open>process_and_speech_data\<close>, run with the module name \<open>out_fpath\<close>, the readable input
  files \<open>inputs\<close> and the output files \<open>files0\<close> present at the start. The \<open>assert\<close> of
  line 137 is modelled as executed (Python run without \<open>-O\<close>). Line 124 makes
  \<open>speeches\<close> a list when \<open>output_fpath\<close> is true as a condition (neither \<open>None\<close> nor an
  empty string) and \<open>None\<close> otherwise. The result is the exception raised, or the final
  state, whose field \<open>speeches\<close> is the value returned.
\<close>

definition process_and_speech_data ::
  "args \<Rightarrow> pystr option \<Rightarrow> (pystr \<rightharpoonup> document) \<Rightarrow> (pystr \<rightharpoonup> clean_data list) \<Rightarrow>
   py_error + run_state" where
  "process_and_speech_data a out_fpath inputs files0 =
     process_paths a out_fpath inputs 0 (input_paths a)
       \<lparr> speeches = (case output_fpath a of
                       None \<Rightarrow> None
                     | Some p \<Rightarrow> if p \<noteq> [] then Some [] else None),
         files = files0,
         warnings = [] \<rparr>"

section \<open>Properties of records and states\<close>

text \<open>
  A text in which every whitespace character is the space (code point 32) and no two
  whitespace characters are adjacent.
\<close>

fun single_spaced :: "pystr \<Rightarrow> bool" where
  "single_spaced [] = True"
| "single_spaced [c] = (is_space c \<longrightarrow> c = 32)"
| "single_spaced (c # d # r) = ((is_space c \<longrightarrow> c = 32 \<and> \<not> is_space d) \<and> single_spaced (d # r))"


text \<open>
  A state in which every record of \<open>speeches\<close>, and every line of every file that was
  not already a line of that file at the start (\<open>files0\<close>), satisfies \<open>P\<close>.
\<close>

definition records_ok ::
  "(clean_data \<Rightarrow> bool) \<Rightarrow> (pystr \<rightharpoonup> clean_data list) \<Rightarrow> run_state \<Rightarrow> bool" where
  "records_ok P files0 st \<longleftrightarrow>
     (\<forall>l r. speeches st = Some l \<and> r \<in> set l \<longrightarrow> P r) \<and>
     (\<forall>p lines r. files st p = Some lines \<and> r \<in> set lines \<longrightarrow>
        P r \<or> (\<exists>lines0. files0 p = Some lines0 \<and> r \<in> set lines0))"


section \<open>The text normalization as the specification words it\<close>

text \<open>
  The specification's step 7 removes the first occurrence of the speaker's display name
  only; \<open>spec_remove_first\<close> does that, and \<open>spec_normalize_text\<close> is the normalization
  with it in place of \<open>replace\<close>.
\<close>

fun spec_remove_first :: "pystr \<Rightarrow> pystr \<Rightarrow> pystr" where
  "spec_remove_first name [] = []"
| "spec_remove_first name (c # cs) =
     (if prefix name (c # cs) then drop (length name) (c # cs)
      else c # spec_remove_first name cs)"

definition spec_normalize_text :: "pystr \<Rightarrow> pystr \<Rightarrow> pystr" where
  "spec_normalize_text txt speaker =
     re_sub_ws (py_lstrip (str ''. '') (spec_remove_first speaker txt))"

section \<open>Example data\<close>

text \<open>
  Two consecutive terms of one legislator that share the boundary day 2015-01-03, in
  stored order.
\<close>

definition ex_term_113 :: leg_term where
  "ex_term_113 =
     \<lparr> t_start = str ''2013-01-03'', t_end = str ''2015-01-03'', t_state = str ''VT'',
       t_party = Some (str ''Independent''), t_caucus = Some (str ''Democrat'') \<rparr>"

definition ex_term_114 :: leg_term where
  "ex_term_114 =
     \<lparr> t_start = str ''2015-01-03'', t_end = str ''2017-01-03'', t_state = str ''VT'',
       t_party = Some (str ''Independent''), t_caucus = Some (str ''Independent'') \<rparr>"

text \<open>
  The scenario of the specification: a legislator with one term, a second legislator with
  the two terms above, and a document of 3 March 2015 with two speeches of the first. The
  second speech names its speaker twice. \<open>ex_record_1\<close> and \<open>ex_record_2\<close> are the
  records that the two speeches give.
\<close>

definition ex_smith_term :: leg_term where
  "ex_smith_term =
     \<lparr> t_start = str ''2015-01-01'', t_end = str ''2016-12-31'', t_state = str ''TX'',
       t_party = Some (str ''Republican''), t_caucus = None \<rparr>"

definition ex_smith :: legislator where
  "ex_smith =
     \<lparr> l_first_name = str ''John'', l_last_name = str ''Smith'', l_gender = str ''M'',
       l_terms = [ex_smith_term] \<rparr>"

definition ex_sanders :: legislator where
  "ex_sanders =
     \<lparr> l_first_name = str ''Bernard'', l_last_name = str ''Sanders'', l_gender = str ''M'',
       l_terms = [ex_term_113, ex_term_114] \<rparr>"

definition ex_index :: "pystr \<rightharpoonup> legislator" where
  "ex_index = [str ''S000001'' \<mapsto> ex_smith, str ''S000033'' \<mapsto> ex_sanders]"

definition ex_speech_1 :: speech where
  "ex_speech_1 =
     \<lparr> s_kind = str ''speech'', s_speaker_bioguide = Some (str ''S000001''),
       s_speaker = str ''Mr. SMITH'', s_itemno = JInt 1,
       s_text = str ''Mr. SMITH. Thank you, Madam Speaker.'' \<rparr>"

definition ex_speech_2 :: speech where
  "ex_speech_2 =
     \<lparr> s_kind = str ''speech'', s_speaker_bioguide = Some (str ''S000001''),
       s_speaker = str ''Mr. SMITH'', s_itemno = JInt 2,
       s_text = str ''Mr. SMITH. I yield to Mr. SMITH of Texas.'' \<rparr>"

definition ex_speech_3 :: speech where
  "ex_speech_3 =
     \<lparr> s_kind = str ''speech'', s_speaker_bioguide = Some (str ''S000033''),
       s_speaker = str ''Mr. SANDERS'', s_itemno = JInt 3,
       s_text = str ''Mr. SANDERS. I object.'' \<rparr>"

definition ex_header :: header where
  "ex_header =
     \<lparr> h_year = JInt 2015, h_month = str ''March'', h_day = JStr (str ''3''),
       h_chamber = str ''House'' \<rparr>"

definition ex_doc :: document where
  "ex_doc =
     \<lparr> d_id = JStr (str ''D1''), d_title = str ''FLOOR STATEMENT'', d_header = ex_header,
       d_content = [ex_speech_1, ex_speech_2] \<rparr>"

definition ex_args :: args where
  "ex_args =
     \<lparr> input_paths = [str ''D1.json''], legislator_data = Some ex_index,
       output_fpath = Some (str ''out.jsonl''), remove_procedural = False,
       restrict_to_gop_dem = False \<rparr>"

definition ex_record_1 :: clean_data where
  "ex_record_1 =
     \<lparr> o_id = str ''D1_1'', o_source_file = str ''D1.json'', o_title = str ''FLOOR STATEMENT'',
       o_date = str ''2015-03-03'', o_text = str ''Thank you, Madam Speaker.'',
       o_chamber = str ''House'', o_speaker_id = str ''S000001'',
       o_party = Some (str ''Republican''), o_first_name = str ''John'',
       o_last_name = str ''Smith'', o_gender = str ''M'', o_state = str ''TX'' \<rparr>"

definition ex_record_2 :: clean_data where
  "ex_record_2 =
     \<lparr> o_id = str ''D1_2'', o_source_file = str ''D1.json'', o_title = str ''FLOOR STATEMENT'',
       o_date = str ''2015-03-03'', o_text = str ''I yield to of Texas.'',
       o_chamber = str ''House'', o_speaker_id = str ''S000001'',
       o_party = Some (str ''Republican''), o_first_name = str ''John'',
       o_last_name = str ''Smith'', o_gender = str ''M'', o_state = str ''TX'' \<rparr>"

text \<open>
  A document with a procedural title whose header has a two-digit year, so that its date
  string has 8 characters.
\<close>

definition ex_adjourn :: document where
  "ex_adjourn =
     \<lparr> d_id = JStr (str ''D2''), d_title = str ''ADJOURNMENT'',
       d_header = \<lparr> h_year = JStr (str ''15''), h_month = str ''March'',
                    h_day = JStr (str ''3''), h_chamber = str ''House'' \<rparr>,
       d_content = [ex_speech_1] \<rparr>"


section \<open>Term resolution\<close>

lemma scan_terms_None: "scan_terms date xs = None \<longleftrightarrow> (\<forall>u \<in> set xs. \<not> in_term date u)"
  by (induction xs) simp_all

lemma scan_terms_rev_Some:
  "scan_terms date (rev xs) = Some t \<longleftrightarrow>
     (\<exists>i < length xs. t = xs ! i \<and> in_term date (xs ! i) \<and>
        (\<forall>j. i < j \<and> j < length xs \<longrightarrow> \<not> in_term date (xs ! j)))"
proof (induction xs rule: rev_induct)
  case Nil
  show ?case by simp
next
  case (snoc x xs)
  show ?case
  proof (cases "in_term date x")
    case True
    have "(\<exists>i < Suc (length xs). t = (xs @ [x]) ! i \<and> in_term date ((xs @ [x]) ! i) \<and>
            (\<forall>j. i < j \<and> j < Suc (length xs) \<longrightarrow> \<not> in_term date ((xs @ [x]) ! j))) \<longleftrightarrow> t = x"
    proof
      assume "\<exists>i < Suc (length xs). t = (xs @ [x]) ! i \<and> in_term date ((xs @ [x]) ! i) \<and>
            (\<forall>j. i < j \<and> j < Suc (length xs) \<longrightarrow> \<not> in_term date ((xs @ [x]) ! j))"
      then obtain i where i: "i < Suc (length xs)" "t = (xs @ [x]) ! i"
        and later: "\<forall>j. i < j \<and> j < Suc (length xs) \<longrightarrow> \<not> in_term date ((xs @ [x]) ! j)"
        by blast
      have "i = length xs"
      proof (rule ccontr)
        assume "i \<noteq> length xs"
        with i have "i < length xs \<and> length xs < Suc (length xs)" by simp
        with later have "\<not> in_term date ((xs @ [x]) ! length xs)" by blast
        with True show False by simp
      qed
      with i show "t = x" by simp
    next
      assume "t = x"
      with True show "\<exists>i < Suc (length xs). t = (xs @ [x]) ! i \<and> in_term date ((xs @ [x]) ! i) \<and>
            (\<forall>j. i < j \<and> j < Suc (length xs) \<longrightarrow> \<not> in_term date ((xs @ [x]) ! j))"
        by (intro exI [of _ "length xs"]) auto
    qed
    with True show ?thesis by auto
  next
    case False
    have "(\<exists>i < Suc (length xs). t = (xs @ [x]) ! i \<and> in_term date ((xs @ [x]) ! i) \<and>
            (\<forall>j. i < j \<and> j < Suc (length xs) \<longrightarrow> \<not> in_term date ((xs @ [x]) ! j))) \<longleftrightarrow>
          (\<exists>i < length xs. t = xs ! i \<and> in_term date (xs ! i) \<and>
            (\<forall>j. i < j \<and> j < length xs \<longrightarrow> \<not> in_term date (xs ! j)))"
      (is "?L \<longleftrightarrow> ?R")
    proof
      assume ?L
      then obtain i where i: "i < Suc (length xs)" "t = (xs @ [x]) ! i"
          "in_term date ((xs @ [x]) ! i)"
        and later: "\<forall>j. i < j \<and> j < Suc (length xs) \<longrightarrow> \<not> in_term date ((xs @ [x]) ! j)"
        by blast
      from i False have lt: "i < length xs"
        by (cases "i = length xs") simp_all
      have "\<forall>j. i < j \<and> j < length xs \<longrightarrow> \<not> in_term date (xs ! j)"
      proof (intro allI impI)
        fix j assume j: "i < j \<and> j < length xs"
        with later have "\<not> in_term date ((xs @ [x]) ! j)" by simp
        with j show "\<not> in_term date (xs ! j)" by (simp add: nth_append)
      qed
      with lt i show ?R by (auto simp: nth_append)
    next
      assume ?R
      then obtain i where i: "i < length xs" "t = xs ! i" "in_term date (xs ! i)"
        and later: "\<forall>j. i < j \<and> j < length xs \<longrightarrow> \<not> in_term date (xs ! j)"
        by blast
      have "\<forall>j. i < j \<and> j < Suc (length xs) \<longrightarrow> \<not> in_term date ((xs @ [x]) ! j)"
      proof (intro allI impI)
        fix j assume j: "i < j \<and> j < Suc (length xs)"
        show "\<not> in_term date ((xs @ [x]) ! j)"
        proof (cases "j = length xs")
          case True
          with False show ?thesis by simp
        next
          case False
          with j have "j < length xs" by simp
          with j later show ?thesis by (simp add: nth_append)
        qed
      qed
      with i show ?L
        by (intro exI [of _ i]) (simp add: nth_append)
    qed
    with False snoc.IH show ?thesis by simp
  qed
qed

lemma filter_terms_match:
  assumes "i < length terms" and "in_term date (terms ! i)"
    and "\<forall>j. i < j \<and> j < length terms \<longrightarrow> \<not> in_term date (terms ! j)"
  shows "filter_terms date terms = Inr (terms ! i, [])"
proof -
  from assms have "scan_terms date (rev terms) = Some (terms ! i)"
    unfolding scan_terms_rev_Some by blast
  then show ?thesis by (simp add: filter_terms_def)
qed

lemma filter_terms_fallback:
  assumes "terms \<noteq> []" and "\<forall>u \<in> set terms. \<not> in_term date u"
  shows "filter_terms date terms = Inr (last terms, [warning_msg date (last terms)])"
proof -
  from assms(2) have "scan_terms date (rev terms) = None"
    by (simp add: scan_terms_None)
  with assms(1) show ?thesis
    by (simp add: filter_terms_def Let_def split: list.splits)
qed

lemma latest_match_exists:
  assumes "\<exists>u \<in> set terms. in_term date u"
  shows "\<exists>i < length terms. in_term date (terms ! i) \<and>
           (\<forall>j. i < j \<and> j < length terms \<longrightarrow> \<not> in_term date (terms ! j))"
proof -
  from assms have "scan_terms date (rev terms) \<noteq> None"
    by (simp add: scan_terms_None)
  then obtain t where "scan_terms date (rev terms) = Some t" by blast
  then show ?thesis unfolding scan_terms_rev_Some by blast
qed

text \<open>
  C1. For a non-empty list of terms and any date, \<open>filter_terms\<close> returns without an
  exception. When some term contains the date (both bounds inclusive), it returns the
  first such term of the reversed list, that is the one of greatest index in stored
  order, and logs nothing. When no term contains the date, it returns the last stored
  term, whatever the date, and logs exactly one warning.
\<close>

theorem filter_terms_reverse_first_match:
  assumes "terms \<noteq> []"
  shows "\<exists>t logged. filter_terms date terms = Inr (t, logged) \<and>
           (if \<exists>u \<in> set terms. t_start u \<le> date \<and> date \<le> t_end u
            then logged = [] \<and>
                 (\<exists>i < length terms. t = terms ! i \<and>
                    t_start t \<le> date \<and> date \<le> t_end t \<and>
                    (\<forall>j. i < j \<and> j < length terms \<longrightarrow>
                       \<not> (t_start (terms ! j) \<le> date \<and> date \<le> t_end (terms ! j))))
            else t = last terms \<and> logged = [warning_msg date (last terms)])"
proof (cases "\<exists>u \<in> set terms. in_term date u")
  case True
  from latest_match_exists [OF True] obtain i where i: "i < length terms"
      "in_term date (terms ! i)"
      "\<forall>j. i < j \<and> j < length terms \<longrightarrow> \<not> in_term date (terms ! j)"
    by blast
  from filter_terms_match [OF i] have "filter_terms date terms = Inr (terms ! i, [])" .
  moreover from True have "\<exists>u \<in> set terms. t_start u \<le> date \<and> date \<le> t_end u"
    by (simp add: in_term_def)
  ultimately show ?thesis using i unfolding in_term_def by auto
next
  case False
  then have none: "\<forall>u \<in> set terms. \<not> in_term date u" by blast
  from filter_terms_fallback [OF assms none]
  have "filter_terms date terms = Inr (last terms, [warning_msg date (last terms)])" .
  moreover from False have "\<not> (\<exists>u \<in> set terms. t_start u \<le> date \<and> date \<le> t_end u)"
    by (simp add: in_term_def)
  ultimately show ?thesis by simp
qed

theorem filter_terms_reverse_first_match_witness:
  "[ex_term_113, ex_term_114] \<noteq> [] \<and>
   filter_terms (str ''2015-01-03'') [ex_term_113, ex_term_114] = Inr (ex_term_114, []) \<and>
   filter_terms (str ''2014-06-30'') [ex_term_113, ex_term_114] = Inr (ex_term_113, []) \<and>
   filter_terms (str ''2019-05-01'') [ex_term_113, ex_term_114] =
     Inr (ex_term_114, [warning_msg (str ''2019-05-01'') ex_term_114])"
  using filter_terms_reverse_first_match [of "[ex_term_113, ex_term_114]" "str ''2015-01-03''"]
  by (simp add: filter_terms_def in_term_def ex_term_113_def ex_term_114_def str_def Let_def)

text \<open>
  C3, as the specification states it, fails: on the day shared by two stored terms,
  \<open>filter_terms\<close> returns the term stored later, not the one stored earlier.
\<close>

theorem filter_terms_boundary_counterexample:
  "t_end ex_term_113 = str ''2015-01-03'' \<and> t_start ex_term_114 = str ''2015-01-03'' \<and>
   in_term (str ''2015-01-03'') ex_term_113 \<and> in_term (str ''2015-01-03'') ex_term_114 \<and>
   filter_terms (str ''2015-01-03'') [ex_term_113, ex_term_114] = Inr (ex_term_114, []) \<and>
   ex_term_114 \<noteq> ex_term_113"
  by (simp add: filter_terms_def in_term_def ex_term_113_def ex_term_114_def str_def)

text \<open>
  C3, amended. A term that contains the date is returned when no term stored after it
  contains the date. When two stored terms contain the date (as on a shared boundary
  day), the term returned is the later of the two in stored order, or one stored after
  it; it is never the earlier one by position.
\<close>

theorem filter_terms_latest_stored_wins:
  "(i < length terms \<and> in_term date (terms ! i) \<and>
    (\<forall>j. i < j \<and> j < length terms \<longrightarrow> \<not> in_term date (terms ! j))
      \<longrightarrow> filter_terms date terms = Inr (terms ! i, [])) \<and>
   (i < k \<and> k < length terms \<and> in_term date (terms ! i) \<and> in_term date (terms ! k)
      \<longrightarrow> (\<exists>m. k \<le> m \<and> m < length terms \<and> filter_terms date terms = Inr (terms ! m, [])))"
proof (intro conjI impI)
  assume "i < length terms \<and> in_term date (terms ! i) \<and>
    (\<forall>j. i < j \<and> j < length terms \<longrightarrow> \<not> in_term date (terms ! j))"
  then show "filter_terms date terms = Inr (terms ! i, [])"
    using filter_terms_match [of i terms date] by blast
next
  assume h: "i < k \<and> k < length terms \<and> in_term date (terms ! i) \<and> in_term date (terms ! k)"
  then have "\<exists>u \<in> set terms. in_term date u"
    using nth_mem [of k terms] by blast
  from latest_match_exists [OF this] obtain m where m: "m < length terms"
      "in_term date (terms ! m)"
      "\<forall>j. m < j \<and> j < length terms \<longrightarrow> \<not> in_term date (terms ! j)"
    by blast
  have "k \<le> m"
  proof (rule ccontr)
    assume "\<not> k \<le> m"
    with h have "m < k \<and> k < length terms" by simp
    with m(3) have "\<not> in_term date (terms ! k)" by blast
    with h show False by blast
  qed
  with m filter_terms_match [OF m]
  show "\<exists>m. k \<le> m \<and> m < length terms \<and> filter_terms date terms = Inr (terms ! m, [])"
    by blast
qed

theorem filter_terms_latest_stored_wins_witness:
  "(0::nat) < 1 \<and> 1 < length [ex_term_113, ex_term_114] \<and>
   in_term (str ''2015-01-03'') ([ex_term_113, ex_term_114] ! 0) \<and>
   in_term (str ''2015-01-03'') ([ex_term_113, ex_term_114] ! 1) \<and>
   filter_terms (str ''2015-01-03'') [ex_term_113, ex_term_114] =
     Inr ([ex_term_113, ex_term_114] ! 1, [])"
  using filter_terms_latest_stored_wins
      [of 1 "[ex_term_113, ex_term_114]" "str ''2015-01-03''" 2]
    filter_terms_latest_stored_wins
      [of 0 "[ex_term_113, ex_term_114]" "str ''2015-01-03''" 1]
  by (simp add: in_term_def ex_term_113_def ex_term_114_def str_def)

text \<open>
  C9. On a non-empty list \<open>filter_terms\<close> returns an element of the list, for every
  date; on the empty list it raises \<open>IndexError\<close>. So it raises exactly when the list is
  empty.
\<close>

theorem filter_terms_total_on_nonempty:
  "(terms \<noteq> [] \<longrightarrow> (\<exists>t logged. filter_terms date terms = Inr (t, logged) \<and> t \<in> set terms)) \<and>
   filter_terms date [] = Inl IndexError \<and>
   ((\<exists>e. filter_terms date terms = Inl e) \<longleftrightarrow> terms = [])"
proof -
  have empty: "filter_terms date [] = Inl IndexError"
    by (simp add: filter_terms_def)
  have nonempty: "\<exists>t logged. filter_terms date terms = Inr (t, logged) \<and> t \<in> set terms"
    if ne: "terms \<noteq> []"
  proof (cases "\<exists>u \<in> set terms. in_term date u")
    case True
    from latest_match_exists [OF True] obtain i where i: "i < length terms"
        "in_term date (terms ! i)"
        "\<forall>j. i < j \<and> j < length terms \<longrightarrow> \<not> in_term date (terms ! j)"
      by blast
    from filter_terms_match [OF i] i(1) show ?thesis by simp
  next
    case False
    then have "\<forall>u \<in> set terms. \<not> in_term date u" by blast
    from filter_terms_fallback [OF ne this] ne show ?thesis by simp
  qed
  have "(\<exists>e. filter_terms date terms = Inl e) \<longleftrightarrow> terms = []"
  proof
    assume "\<exists>e. filter_terms date terms = Inl e"
    with nonempty show "terms = []" by force
  next
    assume "terms = []"
    with empty show "\<exists>e. filter_terms date terms = Inl e" by simp
  qed
  with empty nonempty show ?thesis by blast
qed

theorem filter_terms_total_on_nonempty_witness:
  "[ex_term_113] \<noteq> [] \<and>
   (\<exists>t logged. filter_terms (str ''1999-12-31'') [ex_term_113] = Inr (t, logged) \<and>
      t \<in> set [ex_term_113])"
  using filter_terms_total_on_nonempty [of "[ex_term_113]" "str ''1999-12-31''"]
  by simp

section \<open>Whitespace collapse, replacement and stripping\<close>

lemma is_space_32: "is_space 32"
  by (simp add: is_space_def)

lemma re_sub_ws_head_space:
  "re_sub_ws xs = c # r \<Longrightarrow> is_space c \<longleftrightarrow> is_space (hd xs)"
  by (cases xs) (auto simp: is_space_32 split: if_splits)

lemma re_sub_ws_Nil: "re_sub_ws xs = [] \<longleftrightarrow> xs = []"
  by (cases xs) simp_all

lemma single_spaced_Cons:
  "single_spaced (c # xs) \<longleftrightarrow>
     (is_space c \<longrightarrow> c = 32 \<and> (xs = [] \<or> \<not> is_space (hd xs))) \<and> single_spaced xs"
  by (cases xs) auto

lemma single_spaced_re_sub_ws: "single_spaced (re_sub_ws t)"
proof (induction t rule: re_sub_ws.induct)
  case 1
  show ?case by simp
next
  case (2 c cs)
  show ?case
  proof (cases "is_space c")
    case True
    let ?rest = "re_sub_ws (dropWhile is_space cs)"
    have "?rest = [] \<or> \<not> is_space (hd ?rest)"
    proof (cases ?rest)
      case Nil
      then show ?thesis by simp
    next
      case (Cons d r)
      then have "is_space d \<longleftrightarrow> is_space (hd (dropWhile is_space cs))"
        by (rule re_sub_ws_head_space)
      moreover from Cons have "dropWhile is_space cs \<noteq> []"
        by (auto simp: re_sub_ws_Nil simp del: dropWhile_eq_Nil_conv)
      then have "\<not> is_space (hd (dropWhile is_space cs))"
        by (metis hd_dropWhile)
      ultimately show ?thesis using Cons by simp
    qed
    with True "2.IH"(1) show ?thesis
      by (simp add: single_spaced_Cons)
  next
    case False
    with "2.IH"(2) show ?thesis
      by (simp add: single_spaced_Cons)
  qed
qed

lemma single_spaced_fixed: "single_spaced xs \<Longrightarrow> re_sub_ws xs = xs"
proof (induction xs rule: re_sub_ws.induct)
  case 1
  show ?case by simp
next
  case (2 c cs)
  from "2.prems" have tl: "single_spaced cs" and
    hd: "is_space c \<longrightarrow> c = 32 \<and> (cs = [] \<or> \<not> is_space (hd cs))"
    by (simp_all add: single_spaced_Cons)
  show ?case
  proof (cases "is_space c")
    case True
    with hd have "dropWhile is_space cs = cs"
      by (cases cs) auto
    with True hd "2.IH"(1) tl show ?thesis by simp
  next
    case False
    with "2.IH"(2) tl show ?thesis by simp
  qed
qed

lemma re_sub_ws_idem: "re_sub_ws (re_sub_ws t) = re_sub_ws t"
  by (rule single_spaced_fixed) (rule single_spaced_re_sub_ws)

lemma single_spaced_nth:
  "single_spaced xs \<Longrightarrow>
     (\<forall>c \<in> set xs. is_space c \<longrightarrow> c = 32) \<and>
     (\<forall>i. Suc i < length xs \<longrightarrow> \<not> (is_space (xs ! i) \<and> is_space (xs ! Suc i)))"
proof (induction xs rule: single_spaced.induct)
  case 1
  show ?case by simp
next
  case (2 c)
  then show ?case by simp
next
  case (3 c d r)
  then have IH: "(\<forall>c \<in> set (d # r). is_space c \<longrightarrow> c = 32)"
    "\<And>i. Suc i < length (d # r) \<Longrightarrow> \<not> (is_space ((d # r) ! i) \<and> is_space ((d # r) ! Suc i))"
    and hd: "is_space c \<longrightarrow> c = 32 \<and> \<not> is_space d"
    by simp_all
  have "\<not> (is_space ((c # d # r) ! i) \<and> is_space ((c # d # r) ! Suc i))"
    if "Suc i < length (c # d # r)" for i
  proof (cases i)
    case 0
    with hd show ?thesis by auto
  next
    case (Suc k)
    with that IH(2) [of k] show ?thesis by simp
  qed
  with IH(1) hd show ?case by auto
qed

lemma replace_scan_absent:
  "\<not> sublist old t \<Longrightarrow> replace_scan old new t = t"
proof (induction t)
  case Nil
  show ?case by simp
next
  case (Cons c cs)
  from Cons.prems have "\<not> prefix old (c # cs)"
    by (simp add: sublist_Cons_right)
  moreover from Cons.prems have "\<not> sublist old cs"
    by (simp add: sublist_Cons_right)
  ultimately show ?case using Cons.IH by simp
qed

lemma py_replace_absent:
  "old = [] \<or> \<not> sublist old t \<Longrightarrow> py_replace t old [] = t"
  by (auto simp: py_replace_def replace_scan_absent)

lemma prefix_within:
  assumes "prefix old (a @ old @ rest)" and "a \<noteq> []"
  shows "sublist old (a @ butlast old)"
proof (cases "old = []")
  case True
  then show ?thesis by simp
next
  case False
  from assms(1) have "old = take (length old) (a @ old @ rest)"
    by (metis append_eq_conv_conj prefix_def)
  moreover from assms(2) False have "length old \<le> length (a @ butlast old)"
    by (cases a) simp_all
  moreover have "a @ old @ rest = (a @ butlast old) @ (last old # rest)"
    using False by simp
  ultimately have "old = take (length old) (a @ butlast old)"
    by (metis take_all_iff take_append order_refl append_Nil2 take_eq_Nil diff_is_0_eq)
  then have "prefix old (a @ butlast old)"
    by (metis take_is_prefix)
  then show ?thesis by (rule prefix_imp_sublist)
qed

lemma replace_scan_piece:
  assumes "\<not> sublist old (a @ butlast old)"
  shows "replace_scan old new (a @ old @ rest) = a @ new @ replace_scan old new rest"
  using assms
proof (induction a)
  case Nil
  then have ne: "old \<noteq> []" by auto
  then obtain c cs where old: "old = c # cs" by (cases old) auto
  have "replace_scan old new (old @ rest) =
          new @ replace_scan old new (drop (length old) (old @ rest))"
    unfolding old by simp
  then show ?case by simp
next
  case (Cons x a)
  have "\<not> prefix old ((x # a) @ old @ rest)"
    using Cons.prems prefix_within [of old "x # a" rest] by blast
  moreover have "\<not> sublist old (a @ butlast old)"
    using Cons.prems by (simp add: sublist_Cons_right)
  ultimately show ?case using Cons.IH by simp
qed

lemma replace_scan_pieces:
  assumes "\<forall>p \<in> set ps. \<not> sublist old (p @ butlast old)" and "\<not> sublist old c"
  shows "replace_scan old new (concat (map (\<lambda>p. p @ old) ps) @ c) =
           concat (map (\<lambda>p. p @ new) ps) @ c"
  using assms(1)
proof (induction ps)
  case Nil
  from assms(2) show ?case by (simp add: replace_scan_absent)
next
  case (Cons p ps)
  then have "\<not> sublist old (p @ butlast old)" by simp
  then have "replace_scan old new (p @ old @ concat (map (\<lambda>p. p @ old) ps) @ c) =
      p @ new @ replace_scan old new (concat (map (\<lambda>p. p @ old) ps) @ c)"
    by (rule replace_scan_piece)
  with Cons show ?case by simp
qed

lemma py_lstrip_decomp:
  "\<exists>pre. t = pre @ py_lstrip chars t \<and> set pre \<subseteq> set chars \<and>
         (\<forall>c r. py_lstrip chars t = c # r \<longrightarrow> c \<notin> set chars)"
proof (intro exI conjI)
  show "t = takeWhile (\<lambda>c. c \<in> set chars) t @ py_lstrip chars t"
    by (simp add: py_lstrip_def)
  show "set (takeWhile (\<lambda>c. c \<in> set chars) t) \<subseteq> set chars"
    by (auto dest: set_takeWhileD)
  show "\<forall>c r. py_lstrip chars t = c # r \<longrightarrow> c \<notin> set chars"
    by (auto simp: py_lstrip_def dropWhile_eq_Cons_conv)
qed

lemma re_sub_ws_append:
  "b = [] \<or> \<not> is_space (hd b) \<Longrightarrow> re_sub_ws (a @ b) = re_sub_ws a @ re_sub_ws b"
proof (induction a rule: re_sub_ws.induct)
  case 1
  show ?case by simp
next
  case (2 c cs)
  from "2.prems" have dw: "dropWhile is_space (cs @ b) = dropWhile is_space cs @ b"
    by (cases b) (auto simp: dropWhile_append)
  show ?case
  proof (cases "is_space c")
    case True
    with "2.IH"(1) "2.prems" dw show ?thesis by simp
  next
    case False
    with "2.IH"(2) "2.prems" show ?thesis by simp
  qed
qed

lemma re_sub_ws_run:
  "ws \<noteq> [] \<Longrightarrow> \<forall>c \<in> set ws. is_space c \<Longrightarrow> b = [] \<or> \<not> is_space (hd b) \<Longrightarrow>
     re_sub_ws (ws @ b) = 32 # re_sub_ws b"
proof -
  assume ne: "ws \<noteq> []" and sp: "\<forall>c \<in> set ws. is_space c"
    and b: "b = [] \<or> \<not> is_space (hd b)"
  from ne obtain w r where ws: "ws = w # r" by (cases ws) auto
  from sp ws have "dropWhile is_space (r @ b) = dropWhile is_space b"
    by (simp add: dropWhile_append)
  also from b have "\<dots> = b" by (cases b) auto
  finally show ?thesis using sp ws by simp
qed

lemma re_sub_ws_no_space: "\<forall>c \<in> set t. \<not> is_space c \<Longrightarrow> re_sub_ws t = t"
  by (induction t) simp_all

lemma normalize_text_head:
  "normalize_text t speaker = c # r \<Longrightarrow> c \<noteq> 46"
proof -
  assume n: "normalize_text t speaker = c # r"
  let ?s = "py_lstrip (str ''. '') (py_replace t speaker [])"
  from n have "?s \<noteq> []" by (auto simp: normalize_text_def)
  then obtain x xs where s: "?s = x # xs" by (cases ?s) auto
  with py_lstrip_decomp [of "py_replace t speaker []" "str ''. ''"]
  have "x \<notin> set (str ''. '')" by blast
  then have "x \<noteq> 46" by (simp add: str_def)
  moreover from n s have "c = (if is_space x then 32 else x)"
    by (simp add: normalize_text_def split: if_splits)
  ultimately show ?thesis by simp
qed

lemma normalize_text_fixed:
  assumes "n = normalize_text t speaker"
    and "speaker = [] \<or> \<not> sublist speaker n" and "\<not> prefix [32] n"
  shows "normalize_text n speaker = n"
proof -
  have r: "py_replace n speaker [] = n"
    using assms(2) by (rule py_replace_absent)
  have "\<not> prefix [46] n"
  proof (cases n)
    case Nil
    then show ?thesis by simp
  next
    case (Cons c r)
    with assms(1) have "c \<noteq> 46" using normalize_text_head [of t speaker c r] by simp
    with Cons show ?thesis by simp
  qed
  with assms(3) have "py_lstrip (str ''. '') n = n"
    by (cases n) (auto simp: py_lstrip_def str_def)
  moreover have "re_sub_ws n = n"
    unfolding assms(1) normalize_text_def by (rule re_sub_ws_idem)
  ultimately show ?thesis
    using r by (simp add: normalize_text_def)
qed

lemma re_sub_ws_snoc_run:
  "ws \<noteq> [] \<Longrightarrow> \<forall>c \<in> set ws. is_space c \<Longrightarrow> u = [] \<or> \<not> is_space (last u) \<Longrightarrow>
     re_sub_ws (u @ ws) = re_sub_ws u @ [32]"
proof (induction u rule: re_sub_ws.induct)
  case 1
  then show ?case using re_sub_ws_run [of ws "[]"] by simp
next
  case (2 c cs)
  show ?case
  proof (cases "is_space c")
    case False
    from "2.prems"(3) have "cs = [] \<or> \<not> is_space (last cs)"
      by (cases cs) simp_all
    with False "2.IH"(2) "2.prems"(1,2) show ?thesis by simp
  next
    case True
    with "2.prems"(3) have ne: "cs \<noteq> []" and l: "\<not> is_space (last cs)"
      by (auto split: if_splits)
    then have mem: "last cs \<in> set cs" by simp
    with l have dw: "dropWhile is_space (cs @ ws) = dropWhile is_space cs @ ws"
      by (auto simp: dropWhile_append)
    from mem l have "last (dropWhile is_space cs) = last cs"
      by (rule dropWhile_last)
    with l have "dropWhile is_space cs = [] \<or> \<not> is_space (last (dropWhile is_space cs))"
      by simp
    with True "2.IH"(1) "2.prems"(1,2) dw show ?thesis by simp
  qed
qed

lemma re_sub_ws_inner_run:
  assumes "ws \<noteq> []" and "\<forall>c \<in> set ws. is_space c"
    and "u = [] \<or> \<not> is_space (last u)" and "v = [] \<or> \<not> is_space (hd v)"
  shows "re_sub_ws (u @ ws @ v) = re_sub_ws u @ [32] @ re_sub_ws v"
proof -
  have "re_sub_ws ((u @ ws) @ v) = re_sub_ws (u @ ws) @ re_sub_ws v"
    using assms(4) by (rule re_sub_ws_append)
  with re_sub_ws_snoc_run [OF assms(1,2,3)] show ?thesis by simp
qed

lemma py_lstrip_idem: "py_lstrip chars (py_lstrip chars t) = py_lstrip chars t"
  by (simp add: py_lstrip_def dropWhile_dropWhile1)


section \<open>The records of a run\<close>

lemma clean_speech_SomeD:
  assumes "clean_speech a path data date sp = Inr (Some rec, logged)"
  shows "\<exists>sid index leg trm party.
           s_speaker_bioguide sp = Some sid \<and> s_kind sp = str ''speech'' \<and>
           sid \<noteq> str ''None'' \<and> sid \<noteq> [] \<and>
           legislator_data a = Some index \<and> index sid = Some leg \<and>
           filter_terms date (l_terms leg) = Inr (trm, logged) \<and>
           rec = make_clean_data path data date sp
                   (py_lstrip (str ''. '') (py_replace (s_text sp) (s_speaker sp) []))
                   sid party leg trm"
  using assms unfolding clean_speech_def Let_def
  by (auto split: option.splits if_splits sum.splits prod.splits)

lemma clean_speech_text:
  assumes "clean_speech a path data date sp = Inr (Some rec, logged)"
  shows "o_text rec = normalize_text (s_text sp) (s_speaker sp)"
  using clean_speech_SomeD [OF assms]
  by (auto simp: make_clean_data_def normalize_text_def)

lemma records_ok_warnings:
  "records_ok P files0 (st\<lparr> warnings := w \<rparr>) = records_ok P files0 st"
  by (simp add: records_ok_def)

lemma emit_records_ok:
  assumes "emit a out_fpath i rec st = Inr st'" and "records_ok P files0 st" and "P rec"
  shows "records_ok P files0 st'"
proof (cases "output_fpath a")
  case None
  with assms(1) obtain l where l: "speeches st = Some l"
      and st': "st' = st\<lparr> speeches := Some (l @ [rec]) \<rparr>"
    by (auto simp: emit_def split: option.splits)
  from assms(2,3) l show ?thesis
    unfolding st' records_ok_def by auto
next
  case (Some dest)
  with assms(1) obtain out where st': "st' = st\<lparr> files := (files st)(out \<mapsto>
        (if i = 0 then [rec]
         else (case files st out of None \<Rightarrow> [] | Some lines \<Rightarrow> lines) @ [rec])) \<rparr>"
    by (cases out_fpath) (auto simp: emit_def)
  from assms(2) have sp: "\<forall>l r. speeches st = Some l \<and> r \<in> set l \<longrightarrow> P r"
    and fl: "\<And>p lines r. files st p = Some lines \<Longrightarrow> r \<in> set lines \<Longrightarrow>
        P r \<or> (\<exists>lines0. files0 p = Some lines0 \<and> r \<in> set lines0)"
    unfolding records_ok_def by blast+
  have "P r \<or> (\<exists>lines0. files0 p = Some lines0 \<and> r \<in> set lines0)"
    if "files st' p = Some lines" and "r \<in> set lines" for p lines r
  proof (cases "p = out")
    case False
    with that st' show ?thesis using fl [of p lines r] by simp
  next
    case True
    with that st' have "r = rec \<or> (\<exists>old. files st out = Some old \<and> r \<in> set old)"
      by (auto split: if_splits option.splits)
    with assms(3) True show ?thesis using fl [of out _ r] by blast
  qed
  moreover have "speeches st' = speeches st" by (simp add: st')
  ultimately show ?thesis
    using sp unfolding records_ok_def by auto
qed

lemma process_content_records_ok:
  assumes "process_content a out_fpath i path data date content st = Inr st'"
    and "records_ok P files0 st"
    and "\<And>sp rec logged. clean_speech a path data date sp = Inr (Some rec, logged) \<Longrightarrow> P rec"
  shows "records_ok P files0 st'"
  using assms(1,2)
proof (induction content arbitrary: st)
  case Nil
  then show ?case by simp
next
  case (Cons sp rest)
  show ?case
  proof (cases "clean_speech a path data date sp")
    case (Inl e)
    with Cons.prems(1) show ?thesis by simp
  next
    case (Inr res)
    obtain r logged where res: "res = (r, logged)" by (cases res)
    show ?thesis
    proof (cases r)
      case None
      with Inr res Cons.prems(1)
      have "process_content a out_fpath i path data date rest
              (st\<lparr> warnings := warnings st @ logged \<rparr>) = Inr st'"
        by simp
      moreover from Cons.prems(2)
      have "records_ok P files0 (st\<lparr> warnings := warnings st @ logged \<rparr>)"
        by (simp add: records_ok_warnings)
      ultimately show ?thesis by (rule Cons.IH)
    next
      case (Some rec)
      with Inr res have cs: "clean_speech a path data date sp = Inr (Some rec, logged)"
        by simp
      then have "P rec" by (rule assms(3))
      from cs Cons.prems(1) obtain st1 where
        e: "emit a out_fpath i rec (st\<lparr> warnings := warnings st @ logged \<rparr>) = Inr st1"
        and rest: "process_content a out_fpath i path data date rest st1 = Inr st'"
        by (auto split: sum.splits)
      from Cons.prems(2)
      have "records_ok P files0 (st\<lparr> warnings := warnings st @ logged \<rparr>)"
        by (simp add: records_ok_warnings)
      with e have "records_ok P files0 st1"
        using \<open>P rec\<close> by (rule emit_records_ok)
      with rest show ?thesis by (rule Cons.IH)
    qed
  qed
qed

lemma process_path_records_ok:
  assumes "process_path a out_fpath inputs i path st = Inr st'"
    and "records_ok P files0 st"
    and "\<And>data date sp rec logged.
           clean_speech a path data date sp = Inr (Some rec, logged) \<Longrightarrow> P rec"
  shows "records_ok P files0 st'"
proof (cases "load_json inputs path")
  case (Inl e)
  with assms(1) show ?thesis by (simp add: process_path_def)
next
  case (Inr data)
  show ?thesis
  proof (cases "remove_procedural a \<and> d_title data \<in> set PROCEDURAL_TITLES")
    case True
    with Inr assms(1) have "st' = st" by (simp add: process_path_def)
    with assms(2) show ?thesis by simp
  next
    case False
    with Inr assms(1) obtain date where
      "process_content a out_fpath i path data date (d_content data) st = Inr st'"
      by (auto simp: process_path_def split: sum.splits if_splits)
    then show ?thesis using assms(2) assms(3) by (rule process_content_records_ok)
  qed
qed

lemma process_paths_records_ok:
  assumes "process_paths a out_fpath inputs i paths st = Inr st'"
    and "records_ok P files0 st"
    and "\<And>path data date sp rec logged.
           clean_speech a path data date sp = Inr (Some rec, logged) \<Longrightarrow> P rec"
  shows "records_ok P files0 st'"
  using assms(1,2)
proof (induction paths arbitrary: i st)
  case Nil
  then show ?case by simp
next
  case (Cons path rest)
  from Cons.prems(1) obtain st1 where
    p: "process_path a out_fpath inputs i path st = Inr st1"
    and r: "process_paths a out_fpath inputs (Suc i) rest st1 = Inr st'"
    by (auto split: sum.splits)
  from p Cons.prems(2) have "records_ok P files0 st1"
    by (rule process_path_records_ok) (rule assms(3))
  with r show ?case by (rule Cons.IH)
qed

lemma run_records_ok:
  assumes "process_and_speech_data a out_fpath inputs files0 = Inr st"
    and "\<And>path data date sp rec logged.
           clean_speech a path data date sp = Inr (Some rec, logged) \<Longrightarrow> P rec"
  shows "records_ok P files0 st"
proof -
  let ?st0 = "\<lparr> speeches = (case output_fpath a of
                       None \<Rightarrow> None
                     | Some p \<Rightarrow> if p \<noteq> [] then Some [] else None),
         files = files0, warnings = [] \<rparr>"
  have "records_ok P files0 ?st0"
    by (auto simp: records_ok_def split: option.splits if_splits)
  moreover from assms(1) have "process_paths a out_fpath inputs 0 (input_paths a) ?st0 = Inr st"
    by (simp add: process_and_speech_data_def)
  ultimately show ?thesis
    using assms(2) process_paths_records_ok by blast
qed


section \<open>The example run\<close>

lemmas ex_defs = ex_smith_term_def ex_smith_def ex_sanders_def ex_index_def ex_speech_1_def
  ex_speech_2_def ex_speech_3_def ex_header_def ex_doc_def ex_args_def ex_record_1_def ex_record_2_def
  ex_term_113_def ex_term_114_def

lemma ex_date: "session_date ex_header = Inr (str ''2015-03-03'')"
  by (simp add: session_date_def ex_header_def MONTH_MAP_def month_names_def str_def fmt02_def
      nat_digits.simps int_str_def int_of_str_def is_space_def unsigned_value_def is_digit_def
      upt_rec)

lemma ex_clean_1:
  "clean_speech ex_args (str ''D1.json'') ex_doc (str ''2015-03-03'') ex_speech_1 =
     Inr (Some ex_record_1, [])"
  by (simp add: clean_speech_def ex_defs str_def py_lstrip_def py_replace_def
      filter_terms_def in_term_def make_clean_data_def gop_dem_def int_str_def
      nat_digits.simps is_space_def)

lemma ex_clean_2:
  "clean_speech ex_args (str ''D1.json'') ex_doc (str ''2015-03-03'') ex_speech_2 =
     Inr (Some ex_record_2, [])"
  by (simp add: clean_speech_def ex_defs str_def py_lstrip_def py_replace_def
      filter_terms_def in_term_def make_clean_data_def gop_dem_def int_str_def
      nat_digits.simps is_space_def)

lemma ex_run:
  "process_and_speech_data ex_args (Some (str ''out.jsonl'')) [str ''D1.json'' \<mapsto> ex_doc] Map.empty =
     Inr \<lparr> speeches = Some [], files = [str ''out.jsonl'' \<mapsto> [ex_record_2]], warnings = [] \<rparr>"
proof -
  have d: "session_date (d_header ex_doc) = Inr (str ''2015-03-03'')"
    using ex_date by (simp add: ex_doc_def)
  have c: "d_content ex_doc = [ex_speech_1, ex_speech_2]" by (simp add: ex_doc_def)
  have a: "input_paths ex_args = [str ''D1.json'']" "output_fpath ex_args = Some (str ''out.jsonl'')"
    "remove_procedural ex_args = False"
    by (simp_all add: ex_args_def)
  have l: "length (str ''2015-03-03'') = length (str ''XXXX-XX-XX'')" by (simp add: str_def)
  have ne: "str ''out.jsonl'' \<noteq> []" by (simp add: str_def)
  show ?thesis
    by (simp add: process_and_speech_data_def process_path_def load_json_def a d c l ne
        ex_clean_1 ex_clean_2 emit_def)
qed

section \<open>Text normalization\<close>

text \<open>
  C2, as the specification states it, fails: \<open>str.replace\<close> removes every occurrence of
  the speaker's name. The second example speech names its speaker twice, and the text of
  its record has neither occurrence, where removing the first occurrence only would keep
  the second.
\<close>

theorem first_occurrence_only_counterexample:
  "clean_speech ex_args (str ''D1.json'') ex_doc (str ''2015-03-03'') ex_speech_2 =
     Inr (Some ex_record_2, []) \<and>
   o_text ex_record_2 = str ''I yield to of Texas.'' \<and>
   spec_normalize_text (s_text ex_speech_2) (s_speaker ex_speech_2) =
     str ''I yield to Mr. SMITH of Texas.'' \<and>
   o_text ex_record_2 \<noteq> spec_normalize_text (s_text ex_speech_2) (s_speaker ex_speech_2)"
proof -
  have "spec_normalize_text (s_text ex_speech_2) (s_speaker ex_speech_2) =
     str ''I yield to Mr. SMITH of Texas.''"
    by (simp add: spec_normalize_text_def ex_speech_2_def str_def py_lstrip_def is_space_def)
  moreover have "o_text ex_record_2 = str ''I yield to of Texas.''"
    by (simp add: ex_record_2_def)
  moreover have "str ''I yield to of Texas.'' \<noteq> str ''I yield to Mr. SMITH of Texas.''"
    by (simp add: str_def)
  ultimately show ?thesis using ex_clean_2 by simp
qed


text \<open>
  C2, amended. The text of every record built is the raw text with every occurrence of
  the speaker's name removed (scanning from the left, occurrences that do not overlap),
  then the leading periods and spaces stripped, then every whitespace run replaced by one
  space. The three steps are characterised: a text cut into pieces by occurrences of the
  name loses all of them; the strip removes a prefix of periods and spaces and leaves a
  text that starts with neither; the collapse leaves a text without whitespace alone and
  turns a maximal whitespace run into one space.
\<close>

theorem text_normalization_removes_every_occurrence:
  "(clean_speech a path data date sp = Inr (Some rec, logged) \<longrightarrow>
      o_text rec =
        re_sub_ws (py_lstrip (str ''. '') (py_replace (s_text sp) (s_speaker sp) []))) \<and>
   ((\<forall>p \<in> set ps. \<not> sublist name (p @ butlast name)) \<and> \<not> sublist name c \<longrightarrow>
      py_replace (concat (map (\<lambda>p. p @ name) ps) @ c) name [] = concat ps @ c) \<and>
   (\<exists>pre. t = pre @ py_lstrip (str ''. '') t \<and> set pre \<subseteq> {46, 32} \<and>
      \<not> prefix [46] (py_lstrip (str ''. '') t) \<and> \<not> prefix [32] (py_lstrip (str ''. '') t)) \<and>
   ((\<forall>c \<in> set u. \<not> is_space c) \<longrightarrow> re_sub_ws u = u) \<and>
   (ws \<noteq> [] \<and> (\<forall>c \<in> set ws. is_space c) \<and> (u = [] \<or> \<not> is_space (last u)) \<and>
    (v = [] \<or> \<not> is_space (hd v)) \<longrightarrow>
      re_sub_ws (u @ ws @ v) = re_sub_ws u @ [32] @ re_sub_ws v)"
proof -
  have item: "o_text rec =
      re_sub_ws (py_lstrip (str ''. '') (py_replace (s_text sp) (s_speaker sp) []))"
    if "clean_speech a path data date sp = Inr (Some rec, logged)"
    using clean_speech_text [OF that] by (simp add: normalize_text_def)
  have all: "py_replace (concat (map (\<lambda>p. p @ name) ps) @ c) name [] = concat ps @ c"
    if h: "(\<forall>p \<in> set ps. \<not> sublist name (p @ butlast name)) \<and> \<not> sublist name c"
  proof -
    from h have "name \<noteq> []" by auto
    moreover from h have "replace_scan name [] (concat (map (\<lambda>p. p @ name) ps) @ c) =
        concat (map (\<lambda>p. p @ []) ps) @ c"
      using replace_scan_pieces [of ps name c "[]"] by blast
    ultimately show ?thesis by (simp add: py_replace_def)
  qed
  from py_lstrip_decomp [of t "str ''. ''"] obtain pre where
    pre: "t = pre @ py_lstrip (str ''. '') t" "set pre \<subseteq> set (str ''. '')"
      "\<forall>c r. py_lstrip (str ''. '') t = c # r \<longrightarrow> c \<notin> set (str ''. '')"
    by blast
  have s: "set (str ''. '') = {46, 32}" by (simp add: str_def)
  from pre(3) have "\<not> prefix [46] (py_lstrip (str ''. '') t)"
    "\<not> prefix [32] (py_lstrip (str ''. '') t)"
    unfolding s by (cases "py_lstrip (str ''. '') t"; auto)+
  with pre(1,2) have strip: "\<exists>pre. t = pre @ py_lstrip (str ''. '') t \<and> set pre \<subseteq> {46, 32} \<and>
      \<not> prefix [46] (py_lstrip (str ''. '') t) \<and> \<not> prefix [32] (py_lstrip (str ''. '') t)"
    unfolding s by blast
  from item all strip re_sub_ws_no_space [of u] re_sub_ws_inner_run [of ws u v]
  show ?thesis by blast
qed


theorem text_normalization_removes_every_occurrence_witness:
  "clean_speech ex_args (str ''D1.json'') ex_doc (str ''2015-03-03'') ex_speech_2 =
     Inr (Some ex_record_2, []) \<and>
   o_text ex_record_2 =
     re_sub_ws (py_lstrip (str ''. '')
       (py_replace (s_text ex_speech_2) (s_speaker ex_speech_2) [])) \<and>
   \<not> sublist (str ''Mr. SMITH'') ([] @ butlast (str ''Mr. SMITH'')) \<and>
   \<not> sublist (str ''Mr. SMITH'') (str ''. I yield to '' @ butlast (str ''Mr. SMITH'')) \<and>
   \<not> sublist (str ''Mr. SMITH'') (str '' of Texas.'') \<and>
   py_replace (str ''Mr. SMITH. I yield to Mr. SMITH of Texas.'') (str ''Mr. SMITH'') [] =
     str ''. I yield to  of Texas.'' \<and>
   \<not> is_space 97 \<and> is_space 9 \<and> is_space 10 \<and>
   re_sub_ws ([97] @ [9, 10] @ [98]) = [97, 32, 98]"
proof -
  have occ: "\<forall>p \<in> set [[], str ''. I yield to '']. 
      \<not> sublist (str ''Mr. SMITH'') (p @ butlast (str ''Mr. SMITH''))"
    "\<not> sublist (str ''Mr. SMITH'') (str '' of Texas.'')"
    by (simp_all add: str_def sublist_code)
  have sp: "[9, 10] \<noteq> []" "\<forall>c \<in> set [9, 10]. is_space c"
    "[97] = [] \<or> \<not> is_space (last [97])" "[98] = [] \<or> \<not> is_space (hd [98])"
    by (simp_all add: is_space_def)
  have cat: "concat (map (\<lambda>p. p @ str ''Mr. SMITH'') [[], str ''. I yield to '']) @
      str '' of Texas.'' = str ''Mr. SMITH. I yield to Mr. SMITH of Texas.''"
    "concat [[], str ''. I yield to ''] @ str '' of Texas.'' = str ''. I yield to  of Texas.''"
    by (simp_all add: str_def)
  show ?thesis
    using text_normalization_removes_every_occurrence
      [where a = ex_args and path = "str ''D1.json''" and data = ex_doc
        and date = "str ''2015-03-03''" and sp = ex_speech_2 and rec = ex_record_2
        and logged = "[]" and ps = "[[], str ''. I yield to '']" and name = "str ''Mr. SMITH''"
        and c = "str '' of Texas.''" and ws = "[9, 10]" and u = "[97]" and v = "[98]"]
      ex_clean_2 occ sp cat
    by (simp add: is_space_def)
qed


text \<open>
  C7, as the specification states it, fails: a raw text that starts with a newline
  normalizes to a text that starts with a space and a period, which a second
  normalization strips.
\<close>

theorem idempotent_normalization_counterexample:
  "normalize_text (10 # str ''  Mr. SMITH. Thank you.'') (str ''Mr. SMITH'') =
     str '' . Thank you.'' \<and>
   normalize_text (str '' . Thank you.'') (str ''Mr. SMITH'') = str ''Thank you.'' \<and>
   str ''Thank you.'' \<noteq> str '' . Thank you.''"
  by (simp add: normalize_text_def py_replace_def py_lstrip_def str_def is_space_def)


text \<open>
  C7, amended. A text produced by the normalization is left unchanged by a second
  normalization with the same speaker name when the name is empty or does not occur in
  it and it does not start with a space. The whitespace collapse and the leading strip
  are idempotent each on its own.
\<close>

theorem normalization_fixed_point:
  "(n = normalize_text t speaker \<and> (speaker = [] \<or> \<not> sublist speaker n) \<and> \<not> prefix [32] n
      \<longrightarrow> normalize_text n speaker = n) \<and>
   re_sub_ws (re_sub_ws t) = re_sub_ws t \<and>
   py_lstrip (str ''. '') (py_lstrip (str ''. '') t) = py_lstrip (str ''. '') t"
  using normalize_text_fixed [of n t speaker] re_sub_ws_idem [of t]
    py_lstrip_idem [of "str ''. ''" t]
  by blast

theorem normalization_fixed_point_witness:
  "str ''Thank you, Madam Speaker.'' =
     normalize_text (str ''Mr. SMITH. Thank you, Madam Speaker.'') (str ''Mr. SMITH'') \<and>
   \<not> sublist (str ''Mr. SMITH'') (str ''Thank you, Madam Speaker.'') \<and>
   \<not> prefix [32] (str ''Thank you, Madam Speaker.'') \<and>
   normalize_text (str ''Thank you, Madam Speaker.'') (str ''Mr. SMITH'') =
     str ''Thank you, Madam Speaker.''"
proof -
  have n: "str ''Thank you, Madam Speaker.'' =
     normalize_text (str ''Mr. SMITH. Thank you, Madam Speaker.'') (str ''Mr. SMITH'')"
    by (simp add: normalize_text_def py_replace_def py_lstrip_def str_def is_space_def)
  have h: "\<not> sublist (str ''Mr. SMITH'') (str ''Thank you, Madam Speaker.'')"
    "\<not> prefix [32] (str ''Thank you, Madam Speaker.'')"
    by (simp_all add: str_def sublist_code)
  show ?thesis
    using normalization_fixed_point
      [of "str ''Thank you, Madam Speaker.''" "str ''Mr. SMITH. Thank you, Madam Speaker.''"
        "str ''Mr. SMITH''"] n h
    by blast
qed


text \<open>
  C10. The text of every record that \<open>process_and_speech_data\<close> builds has no whitespace
  character but the space and no two adjacent whitespace characters. This holds for the
  record of every speech item, and so at the end of a run for every record of the list
  returned and for every line of a file that the run wrote.
\<close>

theorem emitted_text_single_spaced:
  "(clean_speech a path data date sp = Inr (Some rec, logged) \<longrightarrow> single_spaced (o_text rec)) \<and>
   (process_and_speech_data a out_fpath inputs files0 = Inr st \<longrightarrow>
      (\<forall>l r. speeches st = Some l \<and> r \<in> set l \<longrightarrow> single_spaced (o_text r)) \<and>
      (\<forall>p lines r. files st p = Some lines \<and> r \<in> set lines \<longrightarrow>
         single_spaced (o_text r) \<or> (\<exists>lines0. files0 p = Some lines0 \<and> r \<in> set lines0))) \<and>
   (single_spaced x \<longrightarrow>
      (\<forall>c \<in> set x. is_space c \<longrightarrow> c = 32) \<and>
      (\<forall>i. Suc i < length x \<longrightarrow> \<not> (is_space (x ! i) \<and> is_space (x ! Suc i))))"
proof (intro conjI)
  have item: "single_spaced (o_text rec)"
    if "clean_speech a path data date sp = Inr (Some rec, logged)"
    for a path data date sp rec logged
    using clean_speech_text [OF that]
    by (simp add: normalize_text_def single_spaced_re_sub_ws)
  show "clean_speech a path data date sp = Inr (Some rec, logged) \<longrightarrow>
      single_spaced (o_text rec)"
    using item by blast
  show "process_and_speech_data a out_fpath inputs files0 = Inr st \<longrightarrow>
      (\<forall>l r. speeches st = Some l \<and> r \<in> set l \<longrightarrow> single_spaced (o_text r)) \<and>
      (\<forall>p lines r. files st p = Some lines \<and> r \<in> set lines \<longrightarrow>
         single_spaced (o_text r) \<or> (\<exists>lines0. files0 p = Some lines0 \<and> r \<in> set lines0))"
  proof
    assume "process_and_speech_data a out_fpath inputs files0 = Inr st"
    then have "records_ok (\<lambda>r. single_spaced (o_text r)) files0 st"
      using item by (rule run_records_ok)
    then show "(\<forall>l r. speeches st = Some l \<and> r \<in> set l \<longrightarrow> single_spaced (o_text r)) \<and>
      (\<forall>p lines r. files st p = Some lines \<and> r \<in> set lines \<longrightarrow>
         single_spaced (o_text r) \<or> (\<exists>lines0. files0 p = Some lines0 \<and> r \<in> set lines0))"
      unfolding records_ok_def .
  qed
  show "single_spaced x \<longrightarrow>
      (\<forall>c \<in> set x. is_space c \<longrightarrow> c = 32) \<and>
      (\<forall>i. Suc i < length x \<longrightarrow> \<not> (is_space (x ! i) \<and> is_space (x ! Suc i)))"
    using single_spaced_nth [of x] by (rule impI)
qed

theorem emitted_text_single_spaced_witness:
  "clean_speech ex_args (str ''D1.json'') ex_doc (str ''2015-03-03'') ex_speech_2 =
     Inr (Some ex_record_2, []) \<and>
   process_and_speech_data ex_args (Some (str ''out.jsonl'')) [str ''D1.json'' \<mapsto> ex_doc]
       Map.empty =
     Inr \<lparr> speeches = Some [], files = [str ''out.jsonl'' \<mapsto> [ex_record_2]],
           warnings = [] \<rparr> \<and>
   single_spaced (o_text ex_record_2)"
  using emitted_text_single_spaced
    [where a = ex_args and path = "str ''D1.json''" and data = ex_doc
      and date = "str ''2015-03-03''" and sp = ex_speech_2 and rec = ex_record_2
      and logged = "[]" and x = "[]"]
    ex_clean_2 ex_run
  by simp


section \<open>Party resolution\<close>

lemma clean_speech_resolved:
  assumes "s_speaker_bioguide sp = Some sid" and "s_kind sp = str ''speech''"
    and "sid \<noteq> str ''None''" and "sid \<noteq> []"
    and "legislator_data a = Some index" and "index sid = Some leg"
    and "filter_terms date (l_terms leg) = Inr (trm, logged)"
  shows "clean_speech a path data date sp =
     (let txt = py_lstrip (str ''. '') (py_replace (s_text sp) (s_speaker sp) [])
      in if restrict_to_gop_dem a \<and> t_party trm \<notin> set gop_dem
         then if t_caucus trm \<notin> set gop_dem then Inr (None, logged)
              else Inr (Some (make_clean_data path data date sp txt sid (t_caucus trm) leg trm),
                        logged)
         else Inr (Some (make_clean_data path data date sp txt sid (t_party trm) leg trm),
                   logged))"
  using assms by (simp add: clean_speech_def Let_def)

lemma o_party_make_clean_data:
  "o_party (make_clean_data path data date sp txt sid party leg trm) = party"
  by (simp add: make_clean_data_def)


lemma ex_sanders_113:
  "filter_terms (str ''2014-06-30'') (l_terms ex_sanders) = Inr (ex_term_113, [])"
  by (simp add: filter_terms_def in_term_def ex_sanders_def ex_term_113_def ex_term_114_def
      str_def)

lemma ex_sanders_114:
  "filter_terms (str ''2016-02-02'') (l_terms ex_sanders) = Inr (ex_term_114, [])"
  by (simp add: filter_terms_def in_term_def ex_sanders_def ex_term_113_def ex_term_114_def
      str_def)

lemma ex_speech_3_qualifies:
  "s_speaker_bioguide ex_speech_3 = Some (str ''S000033'')" "s_kind ex_speech_3 = str ''speech''"
  "str ''S000033'' \<noteq> str ''None''" "str ''S000033'' \<noteq> []"
  "legislator_data (ex_args\<lparr> restrict_to_gop_dem := True \<rparr>) = Some ex_index"
  "ex_index (str ''S000033'') = Some ex_sanders"
  "restrict_to_gop_dem (ex_args\<lparr> restrict_to_gop_dem := True \<rparr>)"
  by (simp_all add: ex_speech_3_def ex_args_def ex_index_def str_def)

lemma ex_parties:
  "t_party ex_term_113 = Some (str ''Independent'')" "t_caucus ex_term_113 = Some (str ''Democrat'')"
  "t_party ex_term_114 = Some (str ''Independent'')"
  "t_caucus ex_term_114 = Some (str ''Independent'')"
  "Some (str ''Independent'') \<notin> set gop_dem" "Some (str ''Democrat'') \<in> set gop_dem"
  by (simp_all add: ex_term_113_def ex_term_114_def gop_dem_def str_def)


text \<open>
  C4. For a speech item that passes the test of line 141, whose speaker is in the index
  and whose term is resolved: with \<open>restrict_to_gop_dem\<close> set, the record carries the
  term's party when that is \<open>"Republican"\<close> or \<open>"Democrat"\<close>, else the term's caucus when
  that is one of the two, else no record is built and the loop goes on with the next item
  of the same file; without \<open>restrict_to_gop_dem\<close> the record carries the term's party as
  it is, absent or not.
\<close>

theorem party_resolution:
  "s_speaker_bioguide sp = Some sid \<and> s_kind sp = str ''speech'' \<and>
   sid \<noteq> str ''None'' \<and> sid \<noteq> [] \<and>
   legislator_data a = Some index \<and> index sid = Some leg \<and>
   filter_terms date (l_terms leg) = Inr (trm, logged) \<longrightarrow>
     (restrict_to_gop_dem a \<and> t_party trm \<in> set gop_dem \<longrightarrow>
        (\<exists>rec. clean_speech a path data date sp = Inr (Some rec, logged) \<and>
           o_party rec = t_party trm)) \<and>
     (restrict_to_gop_dem a \<and> t_party trm \<notin> set gop_dem \<and> t_caucus trm \<in> set gop_dem \<longrightarrow>
        (\<exists>rec. clean_speech a path data date sp = Inr (Some rec, logged) \<and>
           o_party rec = t_caucus trm)) \<and>
     (restrict_to_gop_dem a \<and> t_party trm \<notin> set gop_dem \<and> t_caucus trm \<notin> set gop_dem \<longrightarrow>
        clean_speech a path data date sp = Inr (None, logged) \<and>
        process_content a out_fpath i path data date (sp # rest) st =
          process_content a out_fpath i path data date rest
            (st\<lparr> warnings := warnings st @ logged \<rparr>)) \<and>
     (\<not> restrict_to_gop_dem a \<longrightarrow>
        (\<exists>rec. clean_speech a path data date sp = Inr (Some rec, logged) \<and>
           o_party rec = t_party trm)) \<and>
     set gop_dem = {Some (str ''Republican''), Some (str ''Democrat'')}"
proof (intro impI)
  assume h: "s_speaker_bioguide sp = Some sid \<and> s_kind sp = str ''speech'' \<and>
   sid \<noteq> str ''None'' \<and> sid \<noteq> [] \<and>
   legislator_data a = Some index \<and> index sid = Some leg \<and>
   filter_terms date (l_terms leg) = Inr (trm, logged)"
  then have cs: "clean_speech a path data date sp =
     (let txt = py_lstrip (str ''. '') (py_replace (s_text sp) (s_speaker sp) [])
      in if restrict_to_gop_dem a \<and> t_party trm \<notin> set gop_dem
         then if t_caucus trm \<notin> set gop_dem then Inr (None, logged)
              else Inr (Some (make_clean_data path data date sp txt sid (t_caucus trm) leg trm),
                        logged)
         else Inr (Some (make_clean_data path data date sp txt sid (t_party trm) leg trm),
                   logged))"
    using clean_speech_resolved [of sp sid a index leg date trm logged path data] by blast
  have 1: "\<exists>rec. clean_speech a path data date sp = Inr (Some rec, logged) \<and>
           o_party rec = t_party trm"
    if "restrict_to_gop_dem a \<and> t_party trm \<in> set gop_dem"
    using that cs by (simp add: Let_def o_party_make_clean_data)
  have 2: "\<exists>rec. clean_speech a path data date sp = Inr (Some rec, logged) \<and>
           o_party rec = t_caucus trm"
    if "restrict_to_gop_dem a \<and> t_party trm \<notin> set gop_dem \<and> t_caucus trm \<in> set gop_dem"
    using that cs by (simp add: Let_def o_party_make_clean_data)
  have 3: "clean_speech a path data date sp = Inr (None, logged) \<and>
        process_content a out_fpath i path data date (sp # rest) st =
          process_content a out_fpath i path data date rest
            (st\<lparr> warnings := warnings st @ logged \<rparr>)"
    if "restrict_to_gop_dem a \<and> t_party trm \<notin> set gop_dem \<and> t_caucus trm \<notin> set gop_dem"
  proof -
    from that cs have "clean_speech a path data date sp = Inr (None, logged)"
      by (simp add: Let_def)
    then show ?thesis by simp
  qed
  have 4: "\<exists>rec. clean_speech a path data date sp = Inr (Some rec, logged) \<and>
           o_party rec = t_party trm"
    if "\<not> restrict_to_gop_dem a"
    using that cs by (simp add: Let_def o_party_make_clean_data)
  have 5: "set gop_dem = {Some (str ''Republican''), Some (str ''Democrat'')}"
    by (simp add: gop_dem_def)
  from 1 2 3 4 5 show "(restrict_to_gop_dem a \<and> t_party trm \<in> set gop_dem \<longrightarrow>
        (\<exists>rec. clean_speech a path data date sp = Inr (Some rec, logged) \<and>
           o_party rec = t_party trm)) \<and>
     (restrict_to_gop_dem a \<and> t_party trm \<notin> set gop_dem \<and> t_caucus trm \<in> set gop_dem \<longrightarrow>
        (\<exists>rec. clean_speech a path data date sp = Inr (Some rec, logged) \<and>
           o_party rec = t_caucus trm)) \<and>
     (restrict_to_gop_dem a \<and> t_party trm \<notin> set gop_dem \<and> t_caucus trm \<notin> set gop_dem \<longrightarrow>
        clean_speech a path data date sp = Inr (None, logged) \<and>
        process_content a out_fpath i path data date (sp # rest) st =
          process_content a out_fpath i path data date rest
            (st\<lparr> warnings := warnings st @ logged \<rparr>)) \<and>
     (\<not> restrict_to_gop_dem a \<longrightarrow>
        (\<exists>rec. clean_speech a path data date sp = Inr (Some rec, logged) \<and>
           o_party rec = t_party trm)) \<and>
     set gop_dem = {Some (str ''Republican''), Some (str ''Democrat'')}"
    by (intro conjI impI) simp_all
qed

theorem party_resolution_witness:
  "s_speaker_bioguide ex_speech_3 = Some (str ''S000033'') \<and>
   s_kind ex_speech_3 = str ''speech'' \<and>
   str ''S000033'' \<noteq> str ''None'' \<and> str ''S000033'' \<noteq> [] \<and>
   legislator_data (ex_args\<lparr> restrict_to_gop_dem := True \<rparr>) = Some ex_index \<and>
   ex_index (str ''S000033'') = Some ex_sanders \<and>
   restrict_to_gop_dem (ex_args\<lparr> restrict_to_gop_dem := True \<rparr>) \<and>
   filter_terms (str ''2014-06-30'') (l_terms ex_sanders) = Inr (ex_term_113, []) \<and>
   t_party ex_term_113 = Some (str ''Independent'') \<and>
   t_caucus ex_term_113 = Some (str ''Democrat'') \<and>
   (\<exists>rec. clean_speech (ex_args\<lparr> restrict_to_gop_dem := True \<rparr>) (str ''D1.json'') ex_doc
            (str ''2014-06-30'') ex_speech_3 = Inr (Some rec, []) \<and>
          o_party rec = Some (str ''Democrat'')) \<and>
   filter_terms (str ''2016-02-02'') (l_terms ex_sanders) = Inr (ex_term_114, []) \<and>
   t_party ex_term_114 = Some (str ''Independent'') \<and>
   t_caucus ex_term_114 = Some (str ''Independent'') \<and>
   clean_speech (ex_args\<lparr> restrict_to_gop_dem := True \<rparr>) (str ''D1.json'') ex_doc
     (str ''2016-02-02'') ex_speech_3 = Inr (None, [])"
  using party_resolution
      [where sp = ex_speech_3 and sid = "str ''S000033''"
        and a = "ex_args\<lparr> restrict_to_gop_dem := True \<rparr>" and index = ex_index
        and leg = ex_sanders and date = "str ''2014-06-30''" and trm = ex_term_113
        and logged = "[]" and path = "str ''D1.json''" and data = ex_doc]
    party_resolution
      [where sp = ex_speech_3 and sid = "str ''S000033''"
        and a = "ex_args\<lparr> restrict_to_gop_dem := True \<rparr>" and index = ex_index
        and leg = ex_sanders and date = "str ''2016-02-02''" and trm = ex_term_114
        and logged = "[]" and path = "str ''D1.json''" and data = ex_doc]
    ex_sanders_113 ex_sanders_114 ex_speech_3_qualifies ex_parties
  by simp


section \<open>Procedural titles and the session date\<close>

lemma ex_adjourn_date: "session_date (d_header ex_adjourn) = Inr (str ''15-03-03'')"
  by (simp add: session_date_def ex_adjourn_def MONTH_MAP_def month_names_def str_def fmt02_def
      nat_digits.simps int_of_str_def is_space_def unsigned_value_def is_digit_def upt_rec)

lemma ex_adjourn_title: "d_title ex_adjourn \<in> set PROCEDURAL_TITLES"
  by (simp add: ex_adjourn_def PROCEDURAL_TITLES_def)

lemma ex_short_date: "length (str ''15-03-03'') \<noteq> length (str ''XXXX-XX-XX'')"
  by (simp add: str_def)


text \<open>
  C8, as the specification states it, fails: the test of the procedural title (line 128)
  comes before the date is derived (lines 132 to 137), so a file with a procedural title
  and a date string of 8 characters is skipped and the run succeeds.
\<close>

theorem date_check_first_counterexample:
  "d_title ex_adjourn \<in> set PROCEDURAL_TITLES \<and>
   session_date (d_header ex_adjourn) = Inr (str ''15-03-03'') \<and>
   length (str ''15-03-03'') \<noteq> 10 \<and>
   process_and_speech_data
       (ex_args\<lparr> input_paths := [str ''D2.json''], remove_procedural := True \<rparr>)
       (Some (str ''out.jsonl'')) [str ''D2.json'' \<mapsto> ex_adjourn] Map.empty =
     Inr \<lparr> speeches = Some [], files = Map.empty, warnings = [] \<rparr>"
proof -
  have "str ''out.jsonl'' \<noteq> []" "length (str ''15-03-03'') \<noteq> 10"
    by (simp_all add: str_def)
  then show ?thesis
    using ex_adjourn_title ex_adjourn_date
    by (simp add: process_and_speech_data_def process_path_def load_json_def ex_args_def)
qed


text \<open>
  C8, amended. When \<open>remove_procedural\<close> is set and the title is in the table, the file
  is skipped whatever its header holds. Otherwise the date is derived, and a date string
  that is not 10 characters long fails the assertion, which ends the run.
\<close>

theorem procedural_skip_precedes_date_check:
  "load_json inputs path = Inr data \<longrightarrow>
     (remove_procedural a \<and> d_title data \<in> set PROCEDURAL_TITLES \<longrightarrow>
        process_path a out_fpath inputs i path st = Inr st) \<and>
     (\<not> (remove_procedural a \<and> d_title data \<in> set PROCEDURAL_TITLES) \<longrightarrow>
        (\<forall>date. session_date (d_header data) = Inr date \<and> length date \<noteq> 10 \<longrightarrow>
           process_path a out_fpath inputs i path st = Inl AssertionError \<and>
           process_paths a out_fpath inputs i (path # rest) st = Inl AssertionError))"
proof (intro impI conjI allI)
  assume "load_json inputs path = Inr data"
    and "remove_procedural a \<and> d_title data \<in> set PROCEDURAL_TITLES"
  then show "process_path a out_fpath inputs i path st = Inr st"
    by (simp add: process_path_def)
next
  fix date
  assume l: "load_json inputs path = Inr data"
    and n: "\<not> (remove_procedural a \<and> d_title data \<in> set PROCEDURAL_TITLES)"
    and d: "session_date (d_header data) = Inr date \<and> length date \<noteq> 10"
  have "length (str ''XXXX-XX-XX'') = 10" by (simp add: str_def)
  with l n d show p: "process_path a out_fpath inputs i path st = Inl AssertionError"
    by (auto simp: process_path_def)
  then show "process_paths a out_fpath inputs i (path # rest) st = Inl AssertionError"
    by simp
qed


theorem procedural_skip_precedes_date_check_witness:
  "load_json [str ''D2.json'' \<mapsto> ex_adjourn] (str ''D2.json'') = Inr ex_adjourn \<and>
   d_title ex_adjourn \<in> set PROCEDURAL_TITLES \<and>
   session_date (d_header ex_adjourn) = Inr (str ''15-03-03'') \<and>
   length (str ''15-03-03'') \<noteq> 10 \<and>
   remove_procedural (ex_args\<lparr> remove_procedural := True \<rparr>) \<and>
   process_path (ex_args\<lparr> remove_procedural := True \<rparr>) (Some (str ''out.jsonl''))
       [str ''D2.json'' \<mapsto> ex_adjourn] 0 (str ''D2.json'')
       \<lparr> speeches = Some [], files = Map.empty, warnings = [] \<rparr> =
     Inr \<lparr> speeches = Some [], files = Map.empty, warnings = [] \<rparr> \<and>
   \<not> remove_procedural ex_args \<and>
   process_path ex_args (Some (str ''out.jsonl''))
       [str ''D2.json'' \<mapsto> ex_adjourn] 0 (str ''D2.json'')
       \<lparr> speeches = Some [], files = Map.empty, warnings = [] \<rparr> =
     Inl AssertionError"
proof -
  have l: "load_json [str ''D2.json'' \<mapsto> ex_adjourn] (str ''D2.json'') = Inr ex_adjourn"
    by (simp add: load_json_def)
  have r: "remove_procedural (ex_args\<lparr> remove_procedural := True \<rparr>)"
    "\<not> remove_procedural ex_args"
    by (simp_all add: ex_args_def)
  have n: "length (str ''15-03-03'') \<noteq> 10" by (simp add: str_def)
  show ?thesis
    using procedural_skip_precedes_date_check
        [where inputs = "[str ''D2.json'' \<mapsto> ex_adjourn]" and path = "str ''D2.json''"
          and data = ex_adjourn and a = "ex_args\<lparr> remove_procedural := True \<rparr>"
          and out_fpath = "Some (str ''out.jsonl'')" and i = 0
          and st = "\<lparr> speeches = Some [], files = Map.empty, warnings = [] \<rparr>"]
      procedural_skip_precedes_date_check
        [where inputs = "[str ''D2.json'' \<mapsto> ex_adjourn]" and path = "str ''D2.json''"
          and data = ex_adjourn and a = ex_args
          and out_fpath = "Some (str ''out.jsonl'')" and i = 0
          and st = "\<lparr> speeches = Some [], files = Map.empty, warnings = [] \<rparr>"]
      l r n ex_adjourn_title ex_adjourn_date
    by blast
qed


section \<open>Output\<close>

text \<open>
  C5. The mode of \<open>open\<close> is chosen by the index of the input path, not by the number of
  records written: every record of the first input file opens the destination in mode
  \<open>"w"\<close>. On the example document, whose two speeches both give a record, the
  destination holds the second record only at the end of the run.
\<close>

theorem first_file_truncates_per_record:
  "clean_speech ex_args (str ''D1.json'') ex_doc (str ''2015-03-03'') ex_speech_1 =
     Inr (Some ex_record_1, []) \<and>
   clean_speech ex_args (str ''D1.json'') ex_doc (str ''2015-03-03'') ex_speech_2 =
     Inr (Some ex_record_2, []) \<and>
   process_and_speech_data ex_args (Some (str ''out.jsonl'')) [str ''D1.json'' \<mapsto> ex_doc]
       Map.empty =
     Inr \<lparr> speeches = Some [], files = [str ''out.jsonl'' \<mapsto> [ex_record_2]],
           warnings = [] \<rparr> \<and>
   [ex_record_2] \<noteq> [ex_record_1, ex_record_2]"
  using ex_clean_1 ex_clean_2 ex_run by simp


lemma ex_clean_1_no_output:
  "clean_speech (ex_args\<lparr> output_fpath := None \<rparr>) (str ''D1.json'') ex_doc
     (str ''2015-03-03'') ex_speech_1 = Inr (Some ex_record_1, [])"
  by (simp add: clean_speech_def ex_defs str_def py_lstrip_def py_replace_def
      filter_terms_def in_term_def make_clean_data_def gop_dem_def int_str_def
      nat_digits.simps is_space_def)


text \<open>
  C6. Line 124 makes \<open>speeches\<close> a list when a destination is given and \<open>None\<close> when none
  is given. Without a destination the first record raises \<open>AttributeError\<close> at
  \<open>speeches.append\<close>; with a destination the function returns the empty list.
\<close>

theorem speeches_initialised_inverted:
  "process_and_speech_data (ex_args\<lparr> output_fpath := None \<rparr>) None
       [str ''D1.json'' \<mapsto> ex_doc] Map.empty = Inl AttributeError \<and>
   map_sum id speeches
     (process_and_speech_data ex_args (Some (str ''out.jsonl'')) [str ''D1.json'' \<mapsto> ex_doc]
        Map.empty) = Inr (Some [])"
proof -
  have d: "session_date (d_header ex_doc) = Inr (str ''2015-03-03'')"
    using ex_date by (simp add: ex_doc_def)
  have c: "d_content ex_doc = [ex_speech_1, ex_speech_2]" by (simp add: ex_doc_def)
  have a: "input_paths (ex_args\<lparr> output_fpath := None \<rparr>) = [str ''D1.json'']"
    "output_fpath (ex_args\<lparr> output_fpath := None \<rparr>) = None"
    "remove_procedural (ex_args\<lparr> output_fpath := None \<rparr>) = False"
    by (simp_all add: ex_args_def)
  have l: "length (str ''2015-03-03'') = length (str ''XXXX-XX-XX'')" by (simp add: str_def)
  have "process_and_speech_data (ex_args\<lparr> output_fpath := None \<rparr>) None
       [str ''D1.json'' \<mapsto> ex_doc] Map.empty = Inl AttributeError"
    by (simp add: process_and_speech_data_def process_path_def load_json_def a d c l
        ex_clean_1_no_output emit_def)
  then show ?thesis using ex_run by simp
qed

end
